theory Spec2Isabelle
  imports Main "HOL-Library.AList" "HOL-Library.Sublist" "HOL-Library.Char_ord"
    "HOL-Library.List_Lexorder" "HOL-Library.Product_Lexorder" "HOL-Library.Multiset"
    "HOL-Library.Log_Nat"
begin

section \<open>JavaScript values and documents\<close>

text \<open>
  The handlers of \<^verbatim>\<open>routes/product\<close> and \<^verbatim>\<open>routes/orders\<close> work on plain JSON-like
  values. A number is a finite double, held as the rational it denotes (not every
  rational is a double; the arithmetic below rounds its results to doubles). Infinities,
  NaN and the sign of zero are not represented. Strings are byte strings. An object is
  an association list:
  assigning to an existing key keeps its position, assigning to a new key appends it,
  which is what \<open>AList.update\<close> does.
\<close>

datatype jsval = Undefined | Null | Bool bool | Num rat | Str string
  | Arr "jsval list" | Obj "(string \<times> jsval) list"

type_synonym doc = "(string \<times> jsval) list"

definition get_prop :: "doc \<Rightarrow> string \<Rightarrow> jsval" where
  "get_prop d k = (case map_of d k of None \<Rightarrow> Undefined | Some v \<Rightarrow> v)"

definition set_prop :: "doc \<Rightarrow> string \<Rightarrow> jsval \<Rightarrow> doc" where
  "set_prop d k v = AList.update k v d"

datatype js_error = TypeError | SyntaxError

text \<open>
  What a request ends with: the handler's reply (status code and payload handed to
  \<^verbatim>\<open>reply.send\<close>), a rejection by the route's schema (the framework's 400), an exception
  thrown inside the handler (the framework's 500), or an input outside the fragment of
  JavaScript modelled here.
\<close>

datatype outcome = Reply nat jsval | Rejected | Throws js_error | NotModelled

subsection \<open>fixId\<close>

text \<open>
  \<^verbatim>\<open>function fixId(product: any) { product.id = product._id }\<close>

  The function mutates its argument and returns nothing. The model returns the pair of
  the argument after the call and the value returned (\<open>Undefined\<close>). The route files
  are modules, hence strict code: reading a property of \<^verbatim>\<open>undefined\<close> or \<^verbatim>\<open>null\<close> throws
  a TypeError, and so does creating a property on a primitive number, string or boolean.
  An array is an object; the property set on it is not an element and is not represented.
\<close>

fun fixId :: "jsval \<Rightarrow> js_error + jsval \<times> jsval" where
  "fixId (Obj product) =
     Inr (Obj (set_prop product ''id'' (get_prop product ''_id'')), Undefined)"
| "fixId (Arr xs) = Inr (Arr xs, Undefined)"
| "fixId Undefined = Inl TypeError"
| "fixId Null = Inl TypeError"
| "fixId (Bool b) = Inl TypeError"
| "fixId (Num n) = Inl TypeError"
| "fixId (Str s) = Inl TypeError"

text \<open>
  \<^verbatim>\<open>xs.forEach(f)\<close> keeps the array, whose elements \<open>f\<close> may have mutated;
  \<^verbatim>\<open>xs.map(f)\<close> is the new array of the values \<open>f\<close> returned.
\<close>

fun array_forEach :: "(jsval \<Rightarrow> js_error + jsval \<times> jsval) \<Rightarrow> jsval list \<Rightarrow> js_error + jsval list" where
  "array_forEach f [] = Inr []"
| "array_forEach f (x # xs) =
     (case f x of
        Inl e \<Rightarrow> Inl e
      | Inr (x', r) \<Rightarrow>
          (case array_forEach f xs of Inl e \<Rightarrow> Inl e | Inr xs' \<Rightarrow> Inr (x' # xs')))"

fun array_map :: "(jsval \<Rightarrow> js_error + jsval \<times> jsval) \<Rightarrow> jsval list \<Rightarrow> js_error + jsval list" where
  "array_map f [] = Inr []"
| "array_map f (x # xs) =
     (case f x of
        Inl e \<Rightarrow> Inl e
      | Inr (x', r) \<Rightarrow>
          (case array_map f xs of Inl e \<Rightarrow> Inl e | Inr rs \<Rightarrow> Inr (r # rs)))"

section \<open>Regular expressions built from the search string\<close>

text \<open>
  \<^verbatim>\<open>new RegExp(query.search, 'i')\<close> reads the search string as a pattern. The fragment
  modelled: a character that is not a metacharacter stands for itself, \<^verbatim>\<open>.\<close> stands for
  any character but a line terminator, and a pattern that starts with a quantifier
  (\<^verbatim>\<open>*\<close>, \<^verbatim>\<open>+\<close>, \<^verbatim>\<open>?\<close>) is a SyntaxError (nothing to repeat). Every other pattern with a
  metacharacter is outside the fragment. The flag \<^verbatim>\<open>i\<close> compares characters after
  upper-casing (ASCII letters here).
\<close>

datatype atom = Lit char | Dot

type_synonym regex = "atom list"

datatype compiled = Compiled regex | Invalid | Unsupported

definition metachars :: "char list" where
  "metachars = [CHR 0x5C, CHR ''^'', CHR ''$'', CHR ''.'', CHR ''*'', CHR ''+'', CHR ''?'',
     CHR ''('', CHR '')'', CHR ''['', CHR '']'', CHR ''{'', CHR ''}'', CHR ''|'']"

fun compile_atoms :: "string \<Rightarrow> regex option" where
  "compile_atoms [] = Some []"
| "compile_atoms (c # cs) =
     (if c = CHR ''.'' then map_option (Cons Dot) (compile_atoms cs)
      else if c \<in> set metachars then None
      else map_option (Cons (Lit c)) (compile_atoms cs))"

definition new_RegExp :: "string \<Rightarrow> compiled" where
  "new_RegExp s =
     (case s of
        [] \<Rightarrow> Compiled []
      | c # cs \<Rightarrow>
          if c = CHR ''*'' \<or> c = CHR ''+'' \<or> c = CHR ''?'' then Invalid
          else (case compile_atoms s of None \<Rightarrow> Unsupported | Some r \<Rightarrow> Compiled r))"

definition to_upper :: "char \<Rightarrow> char" where
  "to_upper c =
     (let n = (of_char c :: nat) in if 97 \<le> n \<and> n \<le> 122 then char_of (n - 32) else c)"

fun atom_matches :: "atom \<Rightarrow> char \<Rightarrow> bool" where
  "atom_matches (Lit a) c = (to_upper a = to_upper c)"
| "atom_matches Dot c = (c \<noteq> CHR 0x0A \<and> c \<noteq> CHR 0x0D)"

fun match_here :: "regex \<Rightarrow> string \<Rightarrow> bool" where
  "match_here [] s = True"
| "match_here (a # r) [] = False"
| "match_here (a # r) (c # s) = (atom_matches a c \<and> match_here r s)"

fun regex_test :: "regex \<Rightarrow> string \<Rightarrow> bool" where
  "regex_test r [] = match_here r []"
| "regex_test r (c # s) = (match_here r (c # s) \<or> regex_test r s)"

text \<open>
  The words of the specification: the search string occurs, ignoring case, as a
  substring of a text.
\<close>

definition occurs_ignoring_case :: "string \<Rightarrow> string \<Rightarrow> bool" where
  "occurs_ignoring_case s t = sublist (map to_upper s) (map to_upper t)"

section \<open>The document store\<close>

text \<open>
  \<^verbatim>\<open>export const db = { products: Datastore.create(...), orders: Datastore.create(...) }\<close>

  Each collection is the list of its documents, in insertion order.
\<close>

record db =
  products :: "doc list"
  orders :: "doc list"

subsection \<open>Filters\<close>

text \<open>
  The filter object the product handlers build has at most three keys: \<^verbatim>\<open>category\<close>,
  \<^verbatim>\<open>price\<close> (an object with \<^verbatim>\<open>$gte\<close> and \<^verbatim>\<open>$lte\<close>) and \<^verbatim>\<open>$or\<close> (a list of clauses, each a
  field with a regular expression).
\<close>

record price_range =
  gte :: "rat option"
  lte :: "rat option"

record filters =
  f_category :: "string option"
  f_price :: "price_range option"
  f_or :: "(string \<times> regex) list option"

text \<open>
  Modelled from the spec: the store's matching of a document against a filter (the
  Document Store Adapter, "a MongoDB-like filter syntax"; the library is not part of the
  repository's sources). The keys of a filter are conjunctive. A field equals a string
  when it holds that string; a range bound holds only of a number; a regular expression
  matches only a string field; \<^verbatim>\<open>$or\<close> holds when one of its clauses does.
\<close>

definition match_category :: "string \<Rightarrow> doc \<Rightarrow> bool" where
  "match_category c d = (get_prop d ''category'' = Str c)"

definition match_price :: "price_range \<Rightarrow> doc \<Rightarrow> bool" where
  "match_price r d =
     (case get_prop d ''price'' of
        Num p \<Rightarrow>
          (case gte r of None \<Rightarrow> True | Some a \<Rightarrow> a \<le> p)
          \<and> (case lte r of None \<Rightarrow> True | Some b \<Rightarrow> p \<le> b)
      | _ \<Rightarrow> False)"

definition match_regex :: "regex \<Rightarrow> jsval \<Rightarrow> bool" where
  "match_regex r v = (case v of Str s \<Rightarrow> regex_test r s | _ \<Rightarrow> False)"

definition match_or :: "(string \<times> regex) list \<Rightarrow> doc \<Rightarrow> bool" where
  "match_or clauses d = list_ex (\<lambda>(k, r). match_regex r (get_prop d k)) clauses"

definition matches :: "filters \<Rightarrow> doc \<Rightarrow> bool" where
  "matches f d =
     ((case f_category f of None \<Rightarrow> True | Some c \<Rightarrow> match_category c d)
      \<and> (case f_price f of None \<Rightarrow> True | Some r \<Rightarrow> match_price r d)
      \<and> (case f_or f of None \<Rightarrow> True | Some cl \<Rightarrow> match_or cl d))"

definition no_filter :: filters where
  "no_filter = \<lparr>f_category = None, f_price = None, f_or = None\<rparr>"

subsection \<open>Queries: count, find, sort, skip, limit\<close>

text \<open>
  Modelled from the spec: \<^verbatim>\<open>count\<close> and \<^verbatim>\<open>find\<close> of the store ("count of matching
  documents", the documents that match, in insertion order), named \<open>count_docs\<close> and
  \<open>find_docs\<close>.
\<close>

definition count_docs :: "doc list \<Rightarrow> filters \<Rightarrow> nat" where
  "count_docs coll f = length (filter (matches f) coll)"

definition find_docs :: "doc list \<Rightarrow> filters \<Rightarrow> doc list" where
  "find_docs coll f = filter (matches f) coll"

text \<open>
  Modelled from the spec: the store's sort ("sorted ascending or descending on sortBy",
  "sorting silently degrades to no-op ordering if the field is absent"). Values are
  ordered by kind first (undefined, null, numbers, strings, booleans, then arrays and
  objects), numbers by value, strings by character code; arrays and objects are not
  compared further. The sort is stable, and the direction (1 or -1) multiplies the
  comparison.
\<close>

fun sort_key_of :: "jsval \<Rightarrow> nat \<times> rat \<times> string" where
  "sort_key_of Undefined = (0, 0, [])"
| "sort_key_of Null = (1, 0, [])"
| "sort_key_of (Num n) = (2, n, [])"
| "sort_key_of (Str s) = (3, 0, s)"
| "sort_key_of (Bool b) = (4, (if b then 1 else 0), [])"
| "sort_key_of (Arr xs) = (5, 0, [])"
| "sort_key_of (Obj d) = (6, 0, [])"

definition compareThings :: "jsval \<Rightarrow> jsval \<Rightarrow> int" where
  "compareThings a b =
     (if sort_key_of a < sort_key_of b then -1
      else if sort_key_of a = sort_key_of b then 0 else 1)"

definition sort_le :: "string \<Rightarrow> int \<Rightarrow> doc \<Rightarrow> doc \<Rightarrow> bool" where
  "sort_le key direction a b =
     (direction * compareThings (get_prop a key) (get_prop b key) \<le> 0)"

fun insort_by :: "('a \<Rightarrow> 'a \<Rightarrow> bool) \<Rightarrow> 'a \<Rightarrow> 'a list \<Rightarrow> 'a list" where
  "insort_by le x [] = [x]"
| "insort_by le x (y # ys) = (if le x y then x # y # ys else y # insort_by le x ys)"

definition sort_docs :: "string \<Rightarrow> int \<Rightarrow> doc list \<Rightarrow> doc list" where
  "sort_docs key direction ds = foldr (insort_by (sort_le key direction)) ds []"

text \<open>
  Modelled from the spec: \<^verbatim>\<open>skip\<close> and \<^verbatim>\<open>limit\<close> of the store's cursor ("page of size
  \<open>size\<close> starting at offset (page-1) x size", "skip/limit semantics"): the documents
  after the first \<open>n\<close>, at most \<open>m\<close> of them. The specification describes a positive page
  and size only; a skip or limit below zero counts as zero here.
\<close>

definition skip_limit :: "int \<Rightarrow> int \<Rightarrow> 'a list \<Rightarrow> 'a list" where
  "skip_limit n m xs = take (nat m) (drop (nat n) xs)"

subsection \<open>Updates\<close>

text \<open>
  Modelled from the spec: \<^verbatim>\<open>update\<close> with \<^verbatim>\<open>$set\<close> and \<^verbatim>\<open>returnUpdatedDocs\<close> ("merges
  only provided fields into the existing document", "returns updated document"),
  \<^verbatim>\<open>remove\<close> ("removes at most one document matching id") and \<^verbatim>\<open>insert\<close> ("assigns
  identifier"). The update object \<^verbatim>\<open>{ $set: fields }\<close> is the modifier \<open>SetFields fields\<close>,
  the only modifier the handlers use: it assigns each field of \<open>fields\<close> to the
  document. The first document with the identifier is the one updated or removed;
  \<^verbatim>\<open>update\<close> returns a copy of the updated document, or nothing when no document has
  the identifier; \<^verbatim>\<open>remove\<close> returns the number of documents removed. The identifier a
  new document receives is chosen by the store and is a parameter here; the documents
  the handlers insert carry no identifier of their own.
\<close>

definition has_id :: "string \<Rightarrow> doc \<Rightarrow> bool" where
  "has_id i d = (get_prop d ''_id'' = Str i)"

datatype modifier = SetFields doc

definition apply_set :: "doc \<Rightarrow> doc \<Rightarrow> doc" where
  "apply_set upd d = foldl (\<lambda>acc (k, v). set_prop acc k v) d upd"

fun modify :: "modifier \<Rightarrow> doc \<Rightarrow> doc" where
  "modify (SetFields upd) d = apply_set upd d"

fun update_by_id :: "string \<Rightarrow> modifier \<Rightarrow> doc list \<Rightarrow> doc list \<times> doc option" where
  "update_by_id i m [] = ([], None)"
| "update_by_id i m (d # ds) =
     (if has_id i d then (modify m d # ds, Some (modify m d))
      else (case update_by_id i m ds of (ds', r) \<Rightarrow> (d # ds', r)))"

fun remove_by_id :: "string \<Rightarrow> doc list \<Rightarrow> doc list \<times> nat" where
  "remove_by_id i [] = ([], 0)"
| "remove_by_id i (d # ds) =
     (if has_id i d then (ds, 1)
      else (case remove_by_id i ds of (ds', n) \<Rightarrow> (d # ds', n)))"

definition insert_doc :: "string \<Rightarrow> doc \<Rightarrow> doc list \<Rightarrow> doc list \<times> doc" where
  "insert_doc new_id d coll =
     (let d' = set_prop d ''_id'' (Str new_id) in (coll @ [d'], d'))"

section \<open>The product routes\<close>

subsection \<open>Query parameters\<close>

text \<open>
  The query string of \<^verbatim>\<open>GET /orders\<close> has \<^verbatim>\<open>page\<close> and \<^verbatim>\<open>size\<close>; that of \<^verbatim>\<open>GET /product\<close>
  adds \<^verbatim>\<open>category\<close>, \<^verbatim>\<open>minPrice\<close>, \<^verbatim>\<open>maxPrice\<close>, \<^verbatim>\<open>sortBy\<close> and \<^verbatim>\<open>order\<close>; that of
  \<^verbatim>\<open>GET /product/search\<close> adds \<^verbatim>\<open>search\<close>. An optional parameter that is absent is
  \<open>None\<close> (\<^verbatim>\<open>undefined\<close> in the handler). The field \<^verbatim>\<open>size\<close> is named \<open>size'\<close>.
\<close>

datatype sort_order = Asc | Desc

record paging =
  page :: int
  size' :: int

record list_query = paging +
  category :: "string option"
  minPrice :: "rat option"
  maxPrice :: "rat option"
  sortBy :: string
  order :: sort_order

record search_query = list_query +
  search :: "string option"

text \<open>
  The parameters as the client sent them, and the defaults the schema of the route
  declares: \<^verbatim>\<open>page: default 1\<close>, \<^verbatim>\<open>size: default 10\<close>, \<^verbatim>\<open>sortBy: default 'price'\<close>,
  \<^verbatim>\<open>order: default 'asc'\<close>.
\<close>

record raw_query =
  raw_category :: "string option"
  raw_minPrice :: "rat option"
  raw_maxPrice :: "rat option"
  raw_page :: "int option"
  raw_size :: "int option"
  raw_sortBy :: "string option"
  raw_order :: "sort_order option"

definition with_defaults :: "raw_query \<Rightarrow> list_query" where
  "with_defaults r =
     \<lparr>page = (case raw_page r of None \<Rightarrow> 1 | Some p \<Rightarrow> p),
      size' = (case raw_size r of None \<Rightarrow> 10 | Some n \<Rightarrow> n),
      category = raw_category r,
      minPrice = raw_minPrice r,
      maxPrice = raw_maxPrice r,
      sortBy = (case raw_sortBy r of None \<Rightarrow> ''price'' | Some k \<Rightarrow> k),
      order = (case raw_order r of None \<Rightarrow> Asc | Some ord \<Rightarrow> ord)\<rparr>"

definition no_parameters :: raw_query where
  "no_parameters =
     \<lparr>raw_category = None, raw_minPrice = None, raw_maxPrice = None, raw_page = None,
      raw_size = None, raw_sortBy = None, raw_order = None\<rparr>"

subsection \<open>Filter construction\<close>

text \<open>
  \<^verbatim>\<open>if (category) filters.category = category;\<close>
  \<^verbatim>\<open>if (minPrice !== undefined) filters.price = { $gte: minPrice };\<close>
  \<^verbatim>\<open>if (maxPrice !== undefined) { filters.price = { ...filters.price, $lte: maxPrice }; }\<close>

  Both product handlers build the filter by these three statements. A string is truthy
  when it is present and not empty. Spreading an absent \<^verbatim>\<open>filters.price\<close> gives the
  empty object.
\<close>

definition truthy :: "string option \<Rightarrow> bool" where
  "truthy s = (case s of None \<Rightarrow> False | Some x \<Rightarrow> x \<noteq> [])"

definition spread :: "price_range option \<Rightarrow> price_range" where
  "spread r = (case r of None \<Rightarrow> \<lparr>gte = None, lte = None\<rparr> | Some x \<Rightarrow> x)"

definition add_category :: "string option \<Rightarrow> filters \<Rightarrow> filters" where
  "add_category c f = (if truthy c then f\<lparr>f_category := c\<rparr> else f)"

definition add_minPrice :: "rat option \<Rightarrow> filters \<Rightarrow> filters" where
  "add_minPrice m f =
     (case m of None \<Rightarrow> f | Some a \<Rightarrow> f\<lparr>f_price := Some \<lparr>gte = Some a, lte = None\<rparr>\<rparr>)"

definition add_maxPrice :: "rat option \<Rightarrow> filters \<Rightarrow> filters" where
  "add_maxPrice m f =
     (case m of None \<Rightarrow> f | Some b \<Rightarrow> f\<lparr>f_price := Some ((spread (f_price f))\<lparr>lte := Some b\<rparr>)\<rparr>)"

definition list_filters :: "'a list_query_scheme \<Rightarrow> filters" where
  "list_filters q =
     add_maxPrice (maxPrice q) (add_minPrice (minPrice q) (add_category (category q) no_filter))"

definition direction_of :: "sort_order \<Rightarrow> int" where
  "direction_of ord = (if ord = Asc then 1 else -1)"

subsection \<open>GET /product\<close>

text \<open>
  \<^verbatim>\<open>const total = await db.products.count(filters);\<close>
  \<^verbatim>\<open>const products = await db.products.find(filters).sort({ [sortBy]: order === 'asc' ? 1 : -1 })\<close>
  \<^verbatim>\<open>  .skip((page - 1) * size).limit(size).exec();\<close>
  \<^verbatim>\<open>reply.send({ total, products });\<close>
\<close>

definition run_query :: "doc list \<Rightarrow> filters \<Rightarrow> string \<Rightarrow> int \<Rightarrow> int \<Rightarrow> int \<Rightarrow> doc list" where
  "run_query coll f key direction p n =
     skip_limit ((p - 1) * n) n (sort_docs key direction (find_docs coll f))"

definition product_list :: "db \<Rightarrow> list_query \<Rightarrow> outcome" where
  "product_list d q =
     (let filters = list_filters q;
          total = count_docs (products d) filters;
          found = run_query (products d) filters (sortBy q) (direction_of (order q))
                    (page q) (size' q)
      in Reply 200 (Obj [(''total'', Num (of_nat total)), (''products'', Arr (map Obj found))]))"

section \<open>The order routes\<close>

subsection \<open>GET /orders\<close>

text \<open>
  \<^verbatim>\<open>const total = await db.orders.count({});\<close>
  \<^verbatim>\<open>const orders = await db.orders.find({}).sort({ createdAt: -1 })\<close>
  \<^verbatim>\<open>  .skip((query.page - 1) * query.size).limit(query.size);\<close>
  \<^verbatim>\<open>reply.send({ total, orders: orders.map(fixId) });\<close>
\<close>

definition orders_list :: "db \<Rightarrow> paging \<Rightarrow> outcome" where
  "orders_list d q =
     (let total = count_docs (orders d) no_filter;
          found = run_query (orders d) no_filter ''createdAt'' (-1) (page q) (size' q)
      in case array_map fixId (map Obj found) of
           Inl e \<Rightarrow> Throws e
         | Inr rs \<Rightarrow> Reply 200 (Obj [(''total'', Num (of_nat total)), (''orders'', Arr rs)]))"

section \<open>The remaining product routes\<close>

subsection \<open>GET /product/search\<close>

text \<open>
  The filter is built as for \<^verbatim>\<open>GET /product\<close>, and then
  \<^verbatim>\<open>if (query.search) { const searchRegex = new RegExp(query.search, 'i');\<close>
  \<^verbatim>\<open>  filters.$or = [ { name: searchRegex }, { description: searchRegex } ]; }\<close>
  After the query, \<^verbatim>\<open>products.forEach(fixId)\<close> and \<^verbatim>\<open>reply.send({ total, products })\<close>.
\<close>

definition add_search :: "string option \<Rightarrow> filters \<Rightarrow> outcome + filters" where
  "add_search s f =
     (if truthy s then
        (case new_RegExp (case s of None \<Rightarrow> [] | Some x \<Rightarrow> x) of
           Compiled searchRegex \<Rightarrow>
             Inr (f\<lparr>f_or := Some [(''name'', searchRegex), (''description'', searchRegex)]\<rparr>)
         | Invalid \<Rightarrow> Inl (Throws SyntaxError)
         | Unsupported \<Rightarrow> Inl NotModelled)
      else Inr f)"

definition search_filters :: "search_query \<Rightarrow> outcome + filters" where
  "search_filters q = add_search (search q) (list_filters q)"

definition product_search :: "db \<Rightarrow> search_query \<Rightarrow> outcome" where
  "product_search d q =
     (case search_filters q of
        Inl out \<Rightarrow> out
      | Inr filters \<Rightarrow>
          (let total = count_docs (products d) filters;
               found = run_query (products d) filters (sortBy q) (direction_of (order q))
                         (page q) (size' q)
           in case array_forEach fixId (map Obj found) of
                Inl e \<Rightarrow> Throws e
              | Inr sent \<Rightarrow>
                  Reply 200 (Obj [(''total'', Num (of_nat total)), (''products'', Arr sent)])))"

subsection \<open>PUT /product/:id\<close>

text \<open>
  \<^verbatim>\<open>const product = await db.products.update({ _id: id }, { $set: updatedProduct },\<close>
  \<^verbatim>\<open>  { returnUpdatedDocs: true });\<close>
  \<^verbatim>\<open>if (!product) { return reply.code(404).send({ message: 'Product not found' }); }\<close>
  \<^verbatim>\<open>fixId(product)\<close>
  \<^verbatim>\<open>reply.send(product);\<close>

  The body is the object of the fields to set, as the handler receives it (the schema of
  the route admits \<^verbatim>\<open>name\<close>, \<^verbatim>\<open>price\<close>, \<^verbatim>\<open>category\<close> and \<^verbatim>\<open>description\<close>, none required).
\<close>

definition product_put :: "db \<Rightarrow> string \<Rightarrow> doc \<Rightarrow> db \<times> outcome" where
  "product_put d i updatedProduct =
     (case update_by_id i (SetFields updatedProduct) (products d) of
        (coll, product) \<Rightarrow>
          (let d' = d\<lparr>products := coll\<rparr>
           in case product of
                None \<Rightarrow> (d', Reply 404 (Obj [(''message'', Str ''Product not found'')]))
              | Some found \<Rightarrow>
                  (case fixId (Obj found) of
                     Inl e \<Rightarrow> (d', Throws e)
                   | Inr (sent, r) \<Rightarrow> (d', Reply 200 sent))))"

subsection \<open>DELETE /product/:id\<close>

text \<open>
  \<^verbatim>\<open>const numRemoved = await db.products.remove({ _id: id }, { multi: false });\<close>
  \<^verbatim>\<open>if (numRemoved === 0) { return reply.code(404).send({ message: 'Product not found' }); }\<close>
  \<^verbatim>\<open>reply.code(204).send();\<close>
\<close>

definition product_delete :: "db \<Rightarrow> string \<Rightarrow> db \<times> outcome" where
  "product_delete d i =
     (case remove_by_id i (products d) of
        (coll, numRemoved) \<Rightarrow>
          (let d' = d\<lparr>products := coll\<rparr>
           in if numRemoved = 0
              then (d', Reply 404 (Obj [(''message'', Str ''Product not found'')]))
              else (d', Reply 204 Undefined)))"

section \<open>Arithmetic on numbers\<close>

text \<open>
  \<^verbatim>\<open>+\<close> and \<^verbatim>\<open>*\<close> on numbers are the operations of IEEE 754 double precision: the exact
  result, rounded to the nearest double, a tie going to the even mantissa. A double
  other than zero is \<open>m * 2^u\<close> with a mantissa \<open>m\<close> of at most 53 bits and \<open>u \<ge> -1074\<close>;
  for \<open>2^k \<le> a < 2^(k+1)\<close> the doubles around \<open>a\<close> are the multiples of \<open>2^u\<close> with
  \<open>u = max (k - 52) (-1074)\<close>. A result that rounds to \<open>2^1024\<close> or beyond is an infinity:
  it has no value here (\<open>None\<close>).
\<close>

definition pow2 :: "int \<Rightarrow> rat" where
  "pow2 k = (if 0 \<le> k then 2 ^ nat k else 1 / 2 ^ nat (- k))"

definition floor_log2 :: "rat \<Rightarrow> int" where
  "floor_log2 a =
     (case quotient_of a of
        (p, q) \<Rightarrow> (let k = bitlen p - bitlen q in if pow2 k \<le> a then k else k - 1))"

definition round_half_even :: "rat \<Rightarrow> int" where
  "round_half_even x =
     (let f = \<lfloor>x\<rfloor>; r = x - of_int f
      in if r < 1 / 2 then f else if 1 / 2 < r then f + 1 else if even f then f else f + 1)"

definition to_double :: "rat \<Rightarrow> rat option" where
  "to_double x =
     (if x = 0 then Some 0
      else (let a = \<bar>x\<bar>;
                u = max (floor_log2 a - 52) (- 1074);
                y = of_int (round_half_even (a / pow2 u)) * pow2 u
            in if pow2 1024 \<le> y then None else Some (if x < 0 then - y else y)))"

definition js_mul :: "rat \<Rightarrow> rat \<Rightarrow> rat option" where
  "js_mul x y = to_double (x * y)"

definition js_add :: "rat \<Rightarrow> rat \<Rightarrow> rat option" where
  "js_add x y = to_double (x + y)"

section \<open>The remaining order routes\<close>

subsection \<open>Body schemas\<close>

text \<open>
  The part of JSON Schema the routes use: \<^verbatim>\<open>type\<close> (string, number, array with
  \<^verbatim>\<open>items\<close>, object with \<^verbatim>\<open>properties\<close>) and \<^verbatim>\<open>required\<close>. A property listed under
  \<^verbatim>\<open>properties\<close> is checked only when present; \<^verbatim>\<open>required\<close> lists the keys that must be
  present.

  The framework's validator coerces types: where a string, a number or an array is
  expected and the value is of another kind but not an object, it tries to convert the
  value (the string "2" to the number 2, a scalar to a one-element array, and so on) and
  goes on with the converted body. The conversions are not modelled: such a value gets
  the verdict \<open>Coercion\<close>, which says neither that the body is accepted nor that it is
  refused. An object is never converted, and nothing is converted to an object: these
  mismatches are refused, as is a missing required key. One refusal anywhere refuses the
  body.
\<close>

datatype schema = TString | TNumber | TArray schema
  | TObject "(string \<times> schema) list" "string list"

datatype verdict = Accepted | Refused | Coercion

definition worst :: "verdict \<Rightarrow> verdict \<Rightarrow> verdict" where
  "worst a b =
     (if a = Refused \<or> b = Refused then Refused
      else if a = Coercion \<or> b = Coercion then Coercion
      else Accepted)"

fun check :: "schema \<Rightarrow> jsval \<Rightarrow> verdict" where
  "check TString v = (case v of Str s \<Rightarrow> Accepted | Obj d \<Rightarrow> Refused | _ \<Rightarrow> Coercion)"
| "check TNumber v = (case v of Num n \<Rightarrow> Accepted | Obj d \<Rightarrow> Refused | _ \<Rightarrow> Coercion)"
| "check (TArray s) v =
     (case v of
        Arr xs \<Rightarrow> foldr worst (map (check s) xs) Accepted
      | Obj d \<Rightarrow> Refused
      | _ \<Rightarrow> Coercion)"
| "check (TObject props req) v =
     (case v of
        Obj d \<Rightarrow>
          worst
            (foldr worst
               (map (\<lambda>(k, s). case map_of d k of None \<Rightarrow> Accepted | Some x \<Rightarrow> check s x) props)
               Accepted)
            (if list_all (\<lambda>k. map_of d k \<noteq> None) req then Accepted else Refused)
      | _ \<Rightarrow> Refused)"

text \<open>
  A value satisfies a schema when it is accepted as it is. The body a handler receives
  satisfies the schema of its route: the validator hands on the body it accepted, after
  its conversions.
\<close>

definition valid :: "schema \<Rightarrow> jsval \<Rightarrow> bool" where
  "valid s v = (check s v = Accepted)"

text \<open>
  The body schema of \<^verbatim>\<open>POST /orders\<close>:
  \<^verbatim>\<open>properties: { customer: { type: 'string' },\<close>
  \<^verbatim>\<open>  items: { type: 'array', items: { type: 'object',\<close>
  \<^verbatim>\<open>    properties: { productId: { type: 'string' }, quantity: { type: 'number' } },\<close>
  \<^verbatim>\<open>    required: ['productId', 'quantity'] } } },\<close>
  \<^verbatim>\<open>required: ['customer', 'items']\<close>
\<close>

definition orders_post_item :: schema where
  "orders_post_item =
     TObject [(''productId'', TString), (''quantity'', TNumber)] [''productId'', ''quantity'']"

definition orders_post_body :: schema where
  "orders_post_body =
     TObject [(''customer'', TString), (''items'', TArray orders_post_item)]
       [''customer'', ''items'']"

subsection \<open>POST /orders\<close>

text \<open>
  \<^verbatim>\<open>const totalAmount = order.items.reduce((total, item) => total + item.quantity * 10, 0);\<close>
  \<^verbatim>\<open>const newOrder = { customer: order.customer, items: order.items, totalAmount,\<close>
  \<^verbatim>\<open>  status: 'Pending', createdAt: new Date().toISOString() };\<close>
  \<^verbatim>\<open>const insertedOrder = await db.orders.insert(newOrder);\<close>
  \<^verbatim>\<open>fixId(insertedOrder)\<close>
  \<^verbatim>\<open>reply.code(201).send(insertedOrder);\<close>

  The clock's reading \<open>now\<close> and the identifier the store assigns are parameters. The
  reduction multiplies and adds doubles. A quantity that is not a number (which the
  schema excludes) and a total that overflows to an infinity are outside the model. The
  accumulator \<^verbatim>\<open>total\<close> of the reduction is named \<open>acc\<close>.
\<close>

definition item_quantity :: "jsval \<Rightarrow> rat option" where
  "item_quantity item =
     (case item of
        Obj it \<Rightarrow> (case get_prop it ''quantity'' of Num q \<Rightarrow> Some q | _ \<Rightarrow> None)
      | _ \<Rightarrow> None)"

fun reduce_total :: "rat \<Rightarrow> jsval list \<Rightarrow> rat option" where
  "reduce_total acc [] = Some acc"
| "reduce_total acc (item # rest) =
     (case item_quantity item of
        None \<Rightarrow> None
      | Some q \<Rightarrow>
          (case js_mul q 10 of
             None \<Rightarrow> None
           | Some p \<Rightarrow>
               (case js_add acc p of
                  None \<Rightarrow> None
                | Some acc' \<Rightarrow> reduce_total acc' rest)))"

definition orders_post_handler :: "db \<Rightarrow> string \<Rightarrow> string \<Rightarrow> jsval \<Rightarrow> db \<times> outcome" where
  "orders_post_handler d new_id now body =
     (case body of
        Obj ord \<Rightarrow>
          (case get_prop ord ''items'' of
             Arr its \<Rightarrow>
               (case reduce_total 0 its of
                  None \<Rightarrow> (d, NotModelled)
                | Some totalAmount \<Rightarrow>
                    (let newOrder =
                           [(''customer'', get_prop ord ''customer''), (''items'', Arr its),
                            (''totalAmount'', Num totalAmount), (''status'', Str ''Pending''),
                            (''createdAt'', Str now)]
                     in case insert_doc new_id newOrder (orders d) of
                          (coll, insertedOrder) \<Rightarrow>
                            (let d' = d\<lparr>orders := coll\<rparr>
                             in case fixId (Obj insertedOrder) of
                                  Inl e \<Rightarrow> (d', Throws e)
                                | Inr (sent, r) \<Rightarrow> (d', Reply 201 sent))))
           | _ \<Rightarrow> (d, Throws TypeError))
      | _ \<Rightarrow> (d, Throws TypeError))"

text \<open>
  The route: the validator first, then the handler on the body as sent when it needs no
  conversion.
\<close>

definition orders_post :: "db \<Rightarrow> string \<Rightarrow> string \<Rightarrow> jsval \<Rightarrow> db \<times> outcome" where
  "orders_post d new_id now body =
     (case check orders_post_body body of
        Accepted \<Rightarrow> orders_post_handler d new_id now body
      | Refused \<Rightarrow> (d, Rejected)
      | Coercion \<Rightarrow> (d, NotModelled))"

subsection \<open>DELETE /orders/:id\<close>

text \<open>
  \<^verbatim>\<open>const result = await db.orders.remove({ _id: id }, {});\<close>
  \<^verbatim>\<open>if (result === 0) { reply.code(404).send({ message: 'Order not found' }); return; }\<close>
  \<^verbatim>\<open>fixId(result)\<close>
  \<^verbatim>\<open>reply.code(204).send();\<close>
\<close>

definition orders_delete :: "db \<Rightarrow> string \<Rightarrow> db \<times> outcome" where
  "orders_delete d i =
     (case remove_by_id i (orders d) of
        (coll, result) \<Rightarrow>
          (let d' = d\<lparr>orders := coll\<rparr>
           in if result = 0
              then (d', Reply 404 (Obj [(''message'', Str ''Order not found'')]))
              else (case fixId (Num (of_nat result)) of
                      Inl e \<Rightarrow> (d', Throws e)
                    | Inr (arg, r) \<Rightarrow> (d', Reply 204 Undefined))))"

section \<open>Notions of the specification\<close>

text \<open>
  The slice of a list from index \<open>i\<close> to index \<open>j\<close>, both included: the elements at
  the indices of that range that the list has.
\<close>

definition slice :: "'a list \<Rightarrow> nat \<Rightarrow> nat \<Rightarrow> 'a list" where
  "slice xs i j = map (nth xs) (filter (\<lambda>k. k < length xs) [i..<Suc j])"

text \<open>
  A list of documents is in the requested order on a field when each document's value
  of the field is at most (ascending) or at least (descending) that of every later one.
\<close>

definition in_order :: "string \<Rightarrow> sort_order \<Rightarrow> doc list \<Rightarrow> bool" where
  "in_order key ord ds =
     sorted_wrt (\<lambda>a b. if ord = Asc
                       then sort_key_of (get_prop a key) \<le> sort_key_of (get_prop b key)
                       else sort_key_of (get_prop b key) \<le> sort_key_of (get_prop a key)) ds"

text \<open>The body of an order request with a customer and items of a product and a quantity.\<close>

definition order_item :: "string \<times> rat \<Rightarrow> jsval" where
  "order_item it = Obj [(''productId'', Str (fst it)), (''quantity'', Num (snd it))]"

definition order_body :: "string \<Rightarrow> (string \<times> rat) list \<Rightarrow> jsval" where
  "order_body c its = Obj [(''customer'', Str c), (''items'', Arr (map order_item its))]"

text \<open>The items and the customer of an order request, and the quantity an item carries.\<close>

definition items_of :: "jsval \<Rightarrow> jsval list" where
  "items_of body =
     (case body of
        Obj ord \<Rightarrow> (case get_prop ord ''items'' of Arr its \<Rightarrow> its | _ \<Rightarrow> [])
      | _ \<Rightarrow> [])"

definition customer_of :: "jsval \<Rightarrow> jsval" where
  "customer_of body = (case body of Obj ord \<Rightarrow> get_prop ord ''customer'' | _ \<Rightarrow> Undefined)"

definition quantity :: "jsval \<Rightarrow> rat" where
  "quantity item = (case item_quantity item of None \<Rightarrow> 0 | Some q \<Rightarrow> q)"

text \<open>
  The quantities of a list of items are safe when each is a whole number and the sum of
  their magnitudes times 10 is at most \<open>2^53\<close>: then every product and every running
  total of the reduction is an integer of magnitude at most \<open>2^53\<close>.
\<close>

definition whole :: "rat \<Rightarrow> bool" where
  "whole x = (x = of_int \<lfloor>x\<rfloor>)"

definition safe_quantities :: "jsval list \<Rightarrow> bool" where
  "safe_quantities its =
     (list_all (\<lambda>it. whole (quantity it)) its
      \<and> sum_list (map (\<lambda>it. \<bar>quantity it\<bar> * 10) its) \<le> 2 ^ 53)"

text \<open>
  A text field holds the search string when the field is a string in which the search
  string occurs, ignoring case; a product is a hit when its name or its description
  holds it.
\<close>

definition text_has :: "string \<Rightarrow> jsval \<Rightarrow> bool" where
  "text_has s v = (case v of Str t \<Rightarrow> occurs_ignoring_case s t | _ \<Rightarrow> False)"

definition search_hit :: "string \<Rightarrow> doc \<Rightarrow> bool" where
  "search_hit s p = (text_has s (get_prop p ''name'') \<or> text_has s (get_prop p ''description''))"

section \<open>Sample data\<close>

definition sample_product :: doc where
  "sample_product =
     [(''name'', Str ''Pen''), (''price'', Num 3), (''category'', Str ''office''),
      (''description'', Str ''Blue pen''), (''_id'', Str ''p1'')]"

definition book :: doc where
  "book = [(''name'', Str ''Atlas''), (''price'', Num 12), (''category'', Str ''books''),
           (''_id'', Str ''p2'')]"

definition lamp :: doc where
  "lamp = [(''name'', Str ''Lamp''), (''price'', Num 7), (''category'', Str ''home''),
           (''description'', Str ''Desk lamp''), (''_id'', Str ''p3'')]"

definition sample_order :: doc where
  "sample_order =
     [(''customer'', Str ''Ann''),
      (''items'', Arr [Obj [(''productId'', Str ''a''), (''quantity'', Num 2)]]),
      (''totalAmount'', Num 20), (''status'', Str ''Pending''),
      (''createdAt'', Str ''2024-01-01T00:00:00.000Z''), (''_id'', Str ''o1'')]"

definition sample_db :: db where
  "sample_db = \<lparr>products = [sample_product], orders = [sample_order]\<rparr>"

definition shop :: db where
  "shop = \<lparr>products = [sample_product, book, lamp], orders = [sample_order]\<rparr>"

definition second_page :: list_query where
  "second_page =
     \<lparr>page = 2, size' = 2, category = None, minPrice = None, maxPrice = None,
      sortBy = ''price'', order = Asc\<rparr>"

definition home_query :: list_query where
  "home_query =
     \<lparr>page = 1, size' = 10, category = Some ''home'', minPrice = Some 5, maxPrice = Some 10,
      sortBy = ''price'', order = Asc\<rparr>"

definition find_query :: "string \<Rightarrow> search_query" where
  "find_query s =
     \<lparr>page = 1, size' = 10, category = None, minPrice = None, maxPrice = None,
      sortBy = ''price'', order = Asc, search = Some s\<rparr>"

section \<open>Properties of documents and of the store\<close>

lemma get_prop_set_prop:
  "get_prop (set_prop d k v) k' = (if k' = k then v else get_prop d k')"
  by (simp add: get_prop_def set_prop_def update_conv')

lemma get_prop_apply_set:
  "get_prop (apply_set upd d) k =
     (case map_of (rev upd) k of None \<Rightarrow> get_prop d k | Some v \<Rightarrow> v)"
proof (induction upd arbitrary: d)
  case Nil
  then show ?case by (simp add: apply_set_def)
next
  case (Cons x upd)
  obtain k0 v0 where x: "x = (k0, v0)" by (cases x)
  have "apply_set (x # upd) d = apply_set upd (set_prop d k0 v0)"
    by (simp add: apply_set_def x)
  then show ?case
    using Cons.IH[of "set_prop d k0 v0"]
    by (auto simp: x get_prop_set_prop map_add_def split: option.splits)
qed

lemma update_absent:
  "\<not> list_ex (has_id i) ds \<Longrightarrow> update_by_id i m ds = (ds, None)"
  by (induction ds) auto

lemma update_present:
  "list_ex (has_id i) ds \<Longrightarrow>
   \<exists>pre old post. ds = pre @ old # post \<and> \<not> list_ex (has_id i) pre \<and> has_id i old
     \<and> update_by_id i m ds = (pre @ modify m old # post, Some (modify m old))"
proof (induction ds)
  case Nil
  then show ?case by simp
next
  case (Cons d ds)
  show ?case
  proof (cases "has_id i d")
    case True
    then have "d # ds = [] @ d # ds \<and> \<not> list_ex (has_id i) [] \<and> has_id i d
      \<and> update_by_id i m (d # ds) = ([] @ modify m d # ds, Some (modify m d))"
      by simp
    then show ?thesis by blast
  next
    case False
    with Cons obtain pre old post where
      h: "ds = pre @ old # post" "\<not> list_ex (has_id i) pre" "has_id i old"
         "update_by_id i m ds = (pre @ modify m old # post, Some (modify m old))"
      by auto
    have "d # ds = (d # pre) @ old # post \<and> \<not> list_ex (has_id i) (d # pre) \<and> has_id i old
      \<and> update_by_id i m (d # ds) =
          ((d # pre) @ modify m old # post, Some (modify m old))"
      using h False by simp
    then show ?thesis by blast
  qed
qed

lemma remove_absent:
  "\<not> list_ex (has_id i) ds \<Longrightarrow> remove_by_id i ds = (ds, 0)"
  by (induction ds) auto

lemma remove_present:
  "list_ex (has_id i) ds \<Longrightarrow>
   \<exists>pre old post. ds = pre @ old # post \<and> \<not> list_ex (has_id i) pre \<and> has_id i old
     \<and> remove_by_id i ds = (pre @ post, 1)"
proof (induction ds)
  case Nil
  then show ?case by simp
next
  case (Cons d ds)
  show ?case
  proof (cases "has_id i d")
    case True
    then have "d # ds = [] @ d # ds \<and> \<not> list_ex (has_id i) [] \<and> has_id i d
      \<and> remove_by_id i (d # ds) = ([] @ ds, 1)"
      by simp
    then show ?thesis by blast
  next
    case False
    with Cons obtain pre old post where
      h: "ds = pre @ old # post" "\<not> list_ex (has_id i) pre" "has_id i old"
         "remove_by_id i ds = (pre @ post, 1)"
      by auto
    have "d # ds = (d # pre) @ old # post \<and> \<not> list_ex (has_id i) (d # pre) \<and> has_id i old
      \<and> remove_by_id i (d # ds) = ((d # pre) @ post, 1)"
      using h False by simp
    then show ?thesis by blast
  qed
qed

section \<open>Properties of the arithmetic\<close>

lemma floor_log2_of_int:
  assumes "0 < m"
  shows "floor_log2 (of_int m) = bitlen m - 1"
proof -
  have b: "1 \<le> bitlen m" using assms by (auto simp: bitlen_alt_def)
  have "(2::int) ^ nat (bitlen m - 1) \<le> m" using bitlen_bounds[OF assms] by simp
  then have "(of_int ((2::int) ^ nat (bitlen m - 1)) :: rat) \<le> of_int m"
    by (simp only: of_int_le_iff)
  then have "pow2 (bitlen m - 1) \<le> of_int m"
    using b by (simp add: pow2_def)
  moreover have "bitlen 1 = 1" by (simp add: bitlen_alt_def)
  ultimately show ?thesis
    by (simp add: floor_log2_def)
qed

lemma round_half_even_of_int: "round_half_even (of_int z) = z"
  by (simp add: round_half_even_def)

lemma pow2_nonpos: "u \<le> 0 \<Longrightarrow> pow2 u = 1 / 2 ^ nat (- u)"
  by (auto simp: pow2_def)

lemma to_double_of_int:
  assumes "\<bar>n\<bar> \<le> 2 ^ 53"
  shows "to_double (of_int n) = Some (of_int n)"
proof (cases "n = 0")
  case True
  then show ?thesis by (simp add: to_double_def)
next
  case False
  define m where "m = \<bar>n\<bar>"
  have m: "0 < m" "m \<le> 2 ^ 53" using False assms by (simp_all add: m_def)
  have a: "\<bar>of_int n :: rat\<bar> = of_int m" by (simp add: m_def)
  define u where "u = max (bitlen m - 53) (- 1074)"
  have ueq: "max (floor_log2 (of_int m) - 52) (- 1074) = u"
    by (simp add: floor_log2_of_int[OF m(1)] u_def)
  have small: "(of_int m :: rat) < pow2 1024"
  proof -
    have "m < 2 ^ 1024" using m(2) by (rule order.strict_trans1) simp
    then have "(of_int m :: rat) < of_int (2 ^ 1024)" by (simp only: of_int_less_iff)
    then show ?thesis by (simp add: pow2_def)
  qed
  have exact: "of_int (round_half_even (of_int m / pow2 u)) * pow2 u = (of_int m :: rat)"
  proof (cases "u \<le> 0")
    case True
    have "of_int m / pow2 u = (of_int (m * 2 ^ nat (- u)) :: rat)"
      using True by (simp add: pow2_nonpos)
    then have "round_half_even (of_int m / pow2 u) = m * 2 ^ nat (- u)"
      by (simp only: round_half_even_of_int)
    then show ?thesis using True by (simp add: pow2_nonpos)
  next
    case False
    then have "54 \<le> bitlen m" by (simp add: u_def)
    then have "2 ^ 53 \<le> m" using bitlen_ge_iff_power[of 54 m] by simp
    then have m53: "m = 2 ^ 53" using m(2) by simp
    have "bitlen m = 54" using bitlen_pow2[of 1 53] by (simp add: m53 bitlen_alt_def)
    then have u1: "u = 1" by (simp add: u_def)
    have "of_int m / pow2 u = (of_int (2 ^ 52) :: rat)"
      by (simp add: u1 m53 pow2_def)
    then have "round_half_even (of_int m / pow2 u) = 2 ^ 52"
      by (simp only: round_half_even_of_int)
    then show ?thesis by (simp add: u1 m53 pow2_def)
  qed
  have "to_double (of_int n) = Some (if (of_int n :: rat) < 0 then - of_int m else of_int m)"
    using False small exact
    by (simp add: to_double_def a ueq Let_def)
  then show ?thesis by (auto simp: m_def)
qed

lemma js_mul_of_int:
  "\<bar>a * b\<bar> \<le> 2 ^ 53 \<Longrightarrow> js_mul (of_int a) (of_int b) = Some (of_int (a * b))"
  using to_double_of_int[of "a * b"] by (simp add: js_mul_def)

lemma js_add_of_int:
  "\<bar>a + b\<bar> \<le> 2 ^ 53 \<Longrightarrow> js_add (of_int a) (of_int b) = Some (of_int (a + b))"
  using to_double_of_int[of "a + b"] by (simp add: js_add_def)

section \<open>Properties of the order body\<close>

lemma reduce_total_whole:
  assumes "list_all2 (\<lambda>it n. item_quantity it = Some (of_int n)) its ns"
    and "\<bar>A\<bar> + 10 * sum_list (map abs ns) \<le> 2 ^ 53"
  shows "reduce_total (of_int A) its = Some (of_int (A + 10 * sum_list ns))"
  using assms
proof (induction its ns arbitrary: A rule: list_all2_induct)
  case Nil
  then show ?case by simp
next
  case (Cons it its n ns)
  have nn: "0 \<le> sum_list (map abs ns)" by (rule sum_list_nonneg) auto
  have b1: "\<bar>n * 10\<bar> \<le> 2 ^ 53" using Cons.prems nn by (simp add: abs_mult)
  have b2: "\<bar>A + n * 10\<bar> \<le> 2 ^ 53" using Cons.prems nn by (simp add: abs_mult; linarith?)
  have b3: "\<bar>A + n * 10\<bar> + 10 * sum_list (map abs ns) \<le> 2 ^ 53"
    using Cons.prems by (simp; linarith?)
  have m: "js_mul (of_int n) 10 = Some (of_int (n * 10))"
    using js_mul_of_int[of n 10, OF b1] by simp
  have a: "js_add (of_int A) (of_int (n * 10)) = Some (of_int (A + n * 10))"
    by (rule js_add_of_int[OF b2])
  show ?case
    using Cons.hyps(1) Cons.IH[OF b3] m a by (simp add: algebra_simps)
qed

lemma safe_quantities_total:
  assumes q: "list_all (\<lambda>it. item_quantity it \<noteq> None) its"
    and s: "safe_quantities its"
  shows "reduce_total 0 its = Some (sum_list (map (\<lambda>it. quantity it * 10) its))"
proof -
  let ?ns = "map (\<lambda>it. \<lfloor>quantity it\<rfloor>) its"
  have w: "\<And>it. it \<in> set its \<Longrightarrow> quantity it = of_int \<lfloor>quantity it\<rfloor>"
    using s by (auto simp: safe_quantities_def list_all_iff whole_def)
  have iq: "\<And>it. it \<in> set its \<Longrightarrow> item_quantity it = Some (quantity it)"
    using q by (auto simp: list_all_iff quantity_def)
  have l: "list_all2 (\<lambda>it n. item_quantity it = Some (of_int n)) its ?ns"
    using w iq by (auto simp: list_all2_map2 intro!: list_all2_same[THEN iffD2]) 
  have e1: "map (\<lambda>it. \<bar>quantity it\<bar> * 10) its = map (\<lambda>it. of_int (\<bar>\<lfloor>quantity it\<rfloor>\<bar> * 10)) its"
    using w by (intro map_cong refl) (metis of_int_abs of_int_mult of_int_numeral)
  have "(of_int (10 * sum_list (map abs ?ns)) :: rat) = sum_list (map (\<lambda>it. \<bar>quantity it\<bar> * 10) its)"
    unfolding e1 by (induction its) (simp_all add: algebra_simps)
  then have "(of_int (10 * sum_list (map abs ?ns)) :: rat) \<le> of_int (2 ^ 53)"
    using s by (simp add: safe_quantities_def)
  then have b: "\<bar>0::int\<bar> + 10 * sum_list (map abs ?ns) \<le> 2 ^ 53"
    by (simp only: of_int_le_iff; simp?)
  have e2: "map (\<lambda>it. quantity it * 10) its = map (\<lambda>it. of_int (\<lfloor>quantity it\<rfloor> * 10)) its"
    using w by (intro map_cong refl) (metis of_int_mult of_int_numeral)
  have "(of_int (0 + 10 * sum_list ?ns) :: rat) = sum_list (map (\<lambda>it. quantity it * 10) its)"
    unfolding e2 by (induction its) (simp_all add: algebra_simps)
  then show ?thesis
    using reduce_total_whole[OF l b] by simp
qed

lemma worst_Accepted: "worst a b = Accepted \<longleftrightarrow> a = Accepted \<and> b = Accepted"
  by (cases a; cases b) (simp_all add: worst_def)

lemma worst_Refused: "worst a b = Refused \<longleftrightarrow> a = Refused \<or> b = Refused"
  by (cases a; cases b) (simp_all add: worst_def)

lemma all_Accepted: "foldr worst vs Accepted = Accepted \<longleftrightarrow> list_all (\<lambda>v. v = Accepted) vs"
  by (induction vs) (simp_all add: worst_Accepted)

lemma some_Refused: "foldr worst vs Accepted = Refused \<longleftrightarrow> Refused \<in> set vs"
  by (induction vs) (auto simp: worst_Refused)

lemma valid_item_quantity:
  "valid orders_post_item it \<Longrightarrow> item_quantity it \<noteq> None"
  by (auto simp: valid_def orders_post_item_def item_quantity_def get_prop_def worst_Accepted
      split: jsval.splits option.splits)

lemma valid_items_quantity:
  "list_all (valid orders_post_item) its \<Longrightarrow> list_all (\<lambda>it. item_quantity it \<noteq> None) its"
  using valid_item_quantity by (induction its) fastforce+

lemma valid_body_shape:
  assumes "valid orders_post_body body"
  shows "\<exists>ord c its. body = Obj ord \<and> get_prop ord ''customer'' = Str c
           \<and> get_prop ord ''items'' = Arr its \<and> list_all (valid orders_post_item) its"
  using assms
  by (auto simp: valid_def orders_post_body_def get_prop_def worst_Accepted all_Accepted
      list_all_iff split: jsval.splits option.splits)

lemma valid_items_of:
  "valid orders_post_body body \<Longrightarrow> list_all (\<lambda>it. item_quantity it \<noteq> None) (items_of body)"
  using valid_body_shape[of body] valid_items_quantity by (auto simp: items_of_def)

lemma orders_post_handler_reply:
  assumes "valid orders_post_body body" and "reduce_total 0 (items_of body) = Some t"
  shows "orders_post_handler d new_id now body =
     (d\<lparr>orders := orders d @
          [[(''customer'', customer_of body), (''items'', Arr (items_of body)),
            (''totalAmount'', Num t),
            (''status'', Str ''Pending''), (''createdAt'', Str now), (''_id'', Str new_id)]]\<rparr>,
      Reply 201 (Obj
          [(''customer'', customer_of body), (''items'', Arr (items_of body)),
            (''totalAmount'', Num t),
            (''status'', Str ''Pending''), (''createdAt'', Str now), (''_id'', Str new_id),
            (''id'', Str new_id)]))"
proof -
  from valid_body_shape[OF assms(1)] obtain ord c its where
    b: "body = Obj ord" and c: "get_prop ord ''customer'' = Str c"
    and i: "get_prop ord ''items'' = Arr its"
    by blast
  have r: "reduce_total 0 its = Some t"
    using assms(2) i by (simp add: items_of_def b)
  show ?thesis
    using c i r by (simp add: orders_post_handler_def b items_of_def
        customer_of_def insert_doc_def set_prop_def get_prop_def Let_def)
qed

lemma valid_order_item: "valid orders_post_item (order_item it)"
  by (simp add: valid_def orders_post_item_def order_item_def worst_def)

lemma valid_order_body: "valid orders_post_body (order_body c its)"
proof -
  have "list_all (\<lambda>v. v = Accepted) (map (check orders_post_item) (map order_item its))"
    using valid_order_item by (simp add: list_all_iff valid_def)
  then have "foldr worst (map (check orders_post_item) (map order_item its)) Accepted = Accepted"
    by (simp only: all_Accepted)
  then show ?thesis
    by (simp add: valid_def orders_post_body_def order_body_def worst_def)
qed

lemma items_of_order_body: "items_of (order_body c its) = map order_item its"
  by (simp add: items_of_def order_body_def get_prop_def)

lemma quantity_order_item: "quantity (order_item it) = snd it"
  by (simp add: quantity_def item_quantity_def order_item_def get_prop_def)

lemma orders_post_accepted:
  "valid orders_post_body body \<Longrightarrow>
   orders_post d new_id now body = orders_post_handler d new_id now body"
  by (simp add: orders_post_def valid_def)

lemma item_lacking_key_refused:
  "map_of it ''quantity'' = None \<or> map_of it ''productId'' = None \<Longrightarrow>
   check orders_post_item (Obj it) = Refused"
  by (auto simp: orders_post_item_def worst_Refused)

lemma orders_post_refused:
  assumes "map_of ord ''items'' = Some (Arr its)" and "Obj it \<in> set its"
    and "map_of it ''quantity'' = None \<or> map_of it ''productId'' = None"
  shows "orders_post d new_id now (Obj ord) = (d, Rejected)"
proof -
  have "Refused \<in> set (map (check orders_post_item) its)"
    using assms(2) item_lacking_key_refused[OF assms(3)] by force
  then have "check (TArray orders_post_item) (Arr its) = Refused"
    by (simp add: some_Refused)
  then have "check orders_post_body (Obj ord) = Refused"
    using assms(1) by (simp add: orders_post_body_def worst_Refused)
  then show ?thesis by (simp add: orders_post_def)
qed

lemma orders_post_handler_not_Rejected:
  "snd (orders_post_handler d new_id now body) \<noteq> Rejected"
  by (auto simp: orders_post_handler_def insert_doc_def Let_def
      split: jsval.splits option.splits prod.splits sum.splits)

section \<open>Properties of sorting and paging\<close>

lemma mset_insort_by: "mset (insort_by le x xs) = add_mset x (mset xs)"
  by (induction xs) auto

lemma mset_sort_docs: "mset (sort_docs key dir ds) = mset ds"
  unfolding sort_docs_def by (induction ds) (auto simp: mset_insort_by)

lemma set_sort_docs: "set (sort_docs key dir ds) = set ds"
  using mset_sort_docs[of key dir ds] by (metis set_mset_mset)

lemma set_insort_by: "set (insort_by le x xs) = insert x (set xs)"
  using mset_insort_by[of le x xs] by (metis set_mset_mset set_mset_add_mset_insert)

lemma sorted_wrt_insort_by:
  assumes total: "\<And>a b. le a b \<or> le b a"
    and trans: "\<And>a b c. le a b \<Longrightarrow> le b c \<Longrightarrow> le a c"
  shows "sorted_wrt le xs \<Longrightarrow> sorted_wrt le (insort_by le x xs)"
proof (induction xs)
  case Nil
  then show ?case by simp
next
  case (Cons y ys)
  show ?case
  proof (cases "le x y")
    case True
    then have "\<forall>z\<in>set ys. le x z" using Cons.prems trans by auto
    then show ?thesis using True Cons.prems by simp
  next
    case False
    then have "le y x" using total by blast
    then show ?thesis using False Cons by (auto simp: set_insort_by)
  qed
qed

lemma sort_le_direction:
  "sort_le key (direction_of ord) a b =
     (if ord = Asc then sort_key_of (get_prop a key) \<le> sort_key_of (get_prop b key)
      else sort_key_of (get_prop b key) \<le> sort_key_of (get_prop a key))"
  by (auto simp: sort_le_def direction_of_def compareThings_def)

lemma in_order_sort_docs: "in_order key ord (sort_docs key (direction_of ord) ds)"
proof -
  let ?le = "sort_le key (direction_of ord)"
  have total: "\<And>a b. ?le a b \<or> ?le b a"
    by (auto simp: sort_le_direction)
  have trans: "\<And>a b c. ?le a b \<Longrightarrow> ?le b c \<Longrightarrow> ?le a c"
    by (auto simp: sort_le_direction split: if_splits)
  have "sorted_wrt ?le (foldr (insort_by ?le) ds [])"
    by (induction ds) (auto intro: sorted_wrt_insort_by[of ?le, OF total trans])
  then show ?thesis
    by (simp add: in_order_def sort_docs_def sort_le_direction[abs_def])
qed

lemma filter_upt_less: "filter (\<lambda>k. k < n) [i..<j] = [i..<min j n]"
  by (induction j) auto

lemma take_drop_nth: "take k (drop m xs) = map (nth xs) [m..<min (m + k) (length xs)]"
  by (rule nth_equalityI) auto

lemma skip_limit_slice:
  assumes "1 \<le> p" and "1 \<le> n"
  shows "skip_limit ((p - 1) * n) n xs = slice xs (nat ((p - 1) * n)) (nat (p * n - 1))"
proof -
  define a where "a = (p - 1) * n"
  have nn: "0 \<le> a" using assms by (simp add: a_def)
  have pn: "p * n - 1 = a + n - 1" by (simp add: a_def algebra_simps)
  have "Suc (nat (a + n - 1)) = nat a + nat n"
    using assms(2) nn by linarith
  then show ?thesis
    unfolding pn a_def[symmetric]
    by (simp add: skip_limit_def slice_def filter_upt_less take_drop_nth)
qed

lemma length_skip_limit: "0 \<le> n \<Longrightarrow> int (length (skip_limit m n xs)) \<le> n"
  by (simp add: skip_limit_def)

lemma set_run_query: "set (run_query coll f key dir p n) \<subseteq> {d \<in> set coll. matches f d}"
proof -
  have "set (run_query coll f key dir p n) \<subseteq> set (sort_docs key dir (find_docs coll f))"
    unfolding run_query_def skip_limit_def
    by (meson set_take_subset set_drop_subset subset_trans)
  then show ?thesis by (auto simp: set_sort_docs find_docs_def)
qed

section \<open>Properties of the filters\<close>

lemma f_category_list_filters:
  "f_category (list_filters q) = (if truthy (category q) then category q else None)"
  by (simp add: list_filters_def add_category_def add_minPrice_def add_maxPrice_def no_filter_def
      split: option.splits)

lemma f_price_list_filters:
  "f_price (list_filters q) =
     (case maxPrice q of
        None \<Rightarrow> (case minPrice q of None \<Rightarrow> None | Some a \<Rightarrow> Some \<lparr>gte = Some a, lte = None\<rparr>)
      | Some b \<Rightarrow> Some \<lparr>gte = minPrice q, lte = Some b\<rparr>)"
  by (simp add: list_filters_def add_category_def add_minPrice_def add_maxPrice_def no_filter_def
      spread_def split: option.splits)

lemma f_or_list_filters: "f_or (list_filters q) = None"
  by (simp add: list_filters_def add_category_def add_minPrice_def add_maxPrice_def no_filter_def
      split: option.splits)

lemma matches_list_filters:
  "matches (list_filters q) p =
     ((category q = None \<or> category q = Some [] \<or> Some (get_prop p ''category'') = map_option Str (category q))
      \<and> ((minPrice q = None \<and> maxPrice q = None)
          \<or> (\<exists>x. get_prop p ''price'' = Num x
                \<and> (case minPrice q of None \<Rightarrow> True | Some a \<Rightarrow> a \<le> x)
                \<and> (case maxPrice q of None \<Rightarrow> True | Some b \<Rightarrow> x \<le> b))))"
  by (auto simp: matches_def f_category_list_filters f_price_list_filters f_or_list_filters
      truthy_def match_category_def match_price_def split: option.splits jsval.splits)

section \<open>Properties of fixId and of the search pattern\<close>

lemma forEach_fixId:
  "array_forEach fixId (map Obj ds) =
     Inr (map (\<lambda>p. Obj (set_prop p ''id'' (get_prop p ''_id''))) ds)"
  by (induction ds) auto

lemma map_fixId: "array_map fixId (map Obj ds) = Inr (replicate (length ds) Undefined)"
  by (induction ds) auto

lemma compile_literal:
  "list_all (\<lambda>c. c \<notin> set metachars) s \<Longrightarrow> compile_atoms s = Some (map Lit s)"
  by (induction s) (auto simp: metachars_def)

lemma new_RegExp_literal:
  assumes "list_all (\<lambda>c. c \<notin> set metachars) s"
  shows "new_RegExp s = Compiled (map Lit s)"
proof (cases s)
  case Nil
  then show ?thesis by (simp add: new_RegExp_def)
next
  case (Cons c cs)
  then have "c \<notin> set metachars" using assms by simp
  then have "c \<noteq> CHR ''*'' \<and> c \<noteq> CHR ''+'' \<and> c \<noteq> CHR ''?''"
    by (auto simp: metachars_def)
  then show ?thesis
    using compile_literal[OF assms] Cons by (simp add: new_RegExp_def)
qed

lemma match_here_literal:
  "match_here (map Lit s) t = prefix (map to_upper s) (map to_upper t)"
  by (induction s arbitrary: t) (case_tac t; auto)+

lemma regex_test_literal:
  "regex_test (map Lit s) t = occurs_ignoring_case s t"
proof (induction t)
  case Nil
  show ?case by (cases s) (simp_all add: occurs_ignoring_case_def)
next
  case (Cons c t)
  have "sublist (map to_upper s) (map to_upper (c # t)) =
        (prefix (map to_upper s) (map to_upper (c # t)) \<or> sublist (map to_upper s) (map to_upper t))"
    by (simp add: sublist_Cons_right)
  then show ?case
    using Cons by (simp add: match_here_literal occurs_ignoring_case_def)
qed

lemma match_or_literal:
  "match_or [(''name'', map Lit s), (''description'', map Lit s)] p = search_hit s p"
  by (simp add: match_or_def match_regex_def search_hit_def text_has_def regex_test_literal
      split: jsval.splits)

lemma list_filters_truncate: "list_filters (list_query.truncate q) = list_filters q"
  by (simp add: list_filters_def list_query.truncate_def)

section \<open>Identifier normalization in the responses\<close>

lemma product_list_sends_stored:
  "\<exists>found. product_list d q =
             Reply 200 (Obj [(''total'', Num (of_nat (count_docs (products d) (list_filters q)))),
                             (''products'', Arr (map Obj found))])
           \<and> set found \<subseteq> set (products d)"
proof -
  let ?found = "run_query (products d) (list_filters q) (sortBy q) (direction_of (order q))
                    (page q) (size' q)"
  have "product_list d q =
             Reply 200 (Obj [(''total'', Num (of_nat (count_docs (products d) (list_filters q)))),
                             (''products'', Arr (map Obj ?found))])"
    by (simp add: product_list_def Let_def)
  moreover have "set ?found \<subseteq> set (products d)"
    using set_run_query by blast
  ultimately show ?thesis by blast
qed

lemma fixId_establishes_id:
  "\<exists>p'. fixId (Obj p) = Inr (Obj p', Undefined)
        \<and> get_prop p' ''id'' = get_prop p ''_id''
        \<and> get_prop p' ''_id'' = get_prop p ''_id''"
  by (simp add: get_prop_set_prop)

text \<open>
  C1. Every response that carries a stored document should show the document's "id"
  equal to its store-assigned identifier, the products of the product list among them.
  The handler of \<^verbatim>\<open>GET /product\<close> sends the documents as the store returned them, without
  calling \<open>fixId\<close> (the handler of \<^verbatim>\<open>GET /product/search\<close> calls it on each). On a
  collection holding one product, a request with the default parameters is answered with
  that product, whose "id" is undefined while its identifier is \<open>p1\<close>.
\<close>

theorem product_list_leaves_id_undefined:
  "product_list sample_db (with_defaults no_parameters) =
     Reply 200 (Obj [(''total'', Num 1), (''products'', Arr [Obj sample_product])])
   \<and> get_prop sample_product ''id'' = Undefined
   \<and> get_prop sample_product ''_id'' = Str ''p1''"
  by (simp add: product_list_def sample_db_def sample_product_def with_defaults_def
      no_parameters_def list_filters_def add_category_def add_minPrice_def add_maxPrice_def
      truthy_def no_filter_def count_docs_def find_docs_def run_query_def skip_limit_def sort_docs_def
      matches_def direction_of_def get_prop_def)

section \<open>The order list\<close>

lemma orders_list_payload:
  "\<exists>n. orders_list d q =
         Reply 200 (Obj [(''total'', Num (of_nat (length (orders d)))),
                         (''orders'', Arr (replicate n Undefined))])"
proof -
  have "count_docs (orders d) no_filter = length (orders d)"
    by (simp add: count_docs_def matches_def no_filter_def)
  then show ?thesis
    by (simp add: orders_list_def Let_def map_fixId)
qed

text \<open>
  C2. The order list should return the page of order documents, normalized.
  \<^verbatim>\<open>orders.map(fixId)\<close> is the array of the values \<open>fixId\<close> returns, and \<open>fixId\<close>
  returns nothing: on a collection holding one order the payload is
  \<open>{total: 1, orders: [undefined]}\<close>.
\<close>

theorem orders_list_sends_undefined:
  "orders_list sample_db \<lparr>page = 1, size' = 10\<rparr> =
     Reply 200 (Obj [(''total'', Num 1), (''orders'', Arr [Undefined])])"
  by (simp add: orders_list_def sample_db_def sample_order_def count_docs_def find_docs_def
      run_query_def skip_limit_def sort_docs_def matches_def no_filter_def)

section \<open>Paging of the product list\<close>

text \<open>
  C3 (amended). For every product-list request with page \<open>P \<ge> 1\<close> and size \<open>N \<ge> 1\<close>, the
  returned product array has length at most \<open>N\<close> and is the slice from index \<open>(P-1)*N\<close> to
  \<open>P*N-1\<close> of the full result set (the matching documents, a permutation of them in the
  requested order on \<open>sortBy\<close>); the returned total is the number of matching documents,
  whatever the page; a request without parameters has page 1, size 10, sortBy "price"
  and order "asc".
\<close>

theorem product_list_page:
  assumes "1 \<le> page q" and "1 \<le> size' q"
  shows "\<exists>full found.
      product_list d q =
        Reply 200 (Obj [(''total'', Num (of_nat (length (filter (matches (list_filters q)) (products d))))),
                        (''products'', Arr (map Obj found))])
    \<and> full = sort_docs (sortBy q) (direction_of (order q))
               (filter (matches (list_filters q)) (products d))
    \<and> mset full = mset (filter (matches (list_filters q)) (products d))
    \<and> in_order (sortBy q) (order q) full
    \<and> found = slice full (nat ((page q - 1) * size' q)) (nat (page q * size' q - 1))
    \<and> int (length found) \<le> size' q
    \<and> with_defaults no_parameters =
        \<lparr>page = 1, size' = 10, category = None, minPrice = None, maxPrice = None,
         sortBy = ''price'', order = Asc\<rparr>"
proof -
  let ?full = "sort_docs (sortBy q) (direction_of (order q))
               (filter (matches (list_filters q)) (products d))"
  let ?found = "skip_limit ((page q - 1) * size' q) (size' q) ?full"
  have 1: "product_list d q =
        Reply 200 (Obj [(''total'', Num (of_nat (length (filter (matches (list_filters q)) (products d))))),
                        (''products'', Arr (map Obj ?found))])"
    by (simp add: product_list_def Let_def count_docs_def run_query_def find_docs_def)
  have 2: "?found = slice ?full (nat ((page q - 1) * size' q)) (nat (page q * size' q - 1))"
    by (rule skip_limit_slice[OF assms])
  have 3: "int (length ?found) \<le> size' q"
    using assms by (intro length_skip_limit) simp
  have 4: "with_defaults no_parameters =
        \<lparr>page = 1, size' = 10, category = None, minPrice = None, maxPrice = None,
         sortBy = ''price'', order = Asc\<rparr>"
    by (simp add: with_defaults_def no_parameters_def)
  show ?thesis
    apply (rule exI[of _ ?full])
    apply (rule exI[of _ ?found])
    using 1 2 3 4 mset_sort_docs in_order_sort_docs by simp
qed

text \<open>
  The second page of size 2 of the three products of the shop, by ascending price, is
  the slice from index 2 to index 3 of pen, lamp, atlas: the atlas alone.
\<close>

theorem product_list_page_witness:
  "1 \<le> page second_page \<and> 1 \<le> size' second_page
   \<and> product_list shop second_page =
       Reply 200 (Obj [(''total'', Num 3), (''products'', Arr [Obj book])])
   \<and> slice [sample_product, lamp, book] 2 3 = [book]"
proof -
  have p: "1 \<le> page second_page" and s: "1 \<le> size' second_page"
    by (simp_all add: second_page_def)
  have all: "filter (matches (list_filters second_page)) (products shop) = [sample_product, book, lamp]"
    by (simp add: matches_list_filters second_page_def shop_def)
  have srt: "sort_docs (sortBy second_page) (direction_of (order second_page)) [sample_product, book, lamp]
             = [sample_product, lamp, book]"
    by (simp add: sort_docs_def sort_le_def compareThings_def direction_of_def second_page_def
        sample_product_def book_def lamp_def get_prop_def)
  have sl: "slice [sample_product, lamp, book] 2 3 = [book]"
    by (simp add: slice_def upt_rec)
  from product_list_page[OF p s, of shop] obtain full found where
    h: "product_list shop second_page =
        Reply 200 (Obj [(''total'', Num (of_nat (length (filter (matches (list_filters second_page)) (products shop))))),
                        (''products'', Arr (map Obj found))])"
       "full = sort_docs (sortBy second_page) (direction_of (order second_page))
               (filter (matches (list_filters second_page)) (products shop))"
       "found = slice full (nat ((page second_page - 1) * size' second_page))
                  (nat (page second_page * size' second_page - 1))"
    by blast
  have "full = [sample_product, lamp, book]" using h(2) all srt by simp
  then have "found = [book]" using h(3) sl by (simp add: second_page_def)
  then show ?thesis using h(1) all p s sl by simp
qed

text \<open>
  The schema of the route admits any number as \<open>size\<close>. With \<open>size = -1\<close> the returned
  array is empty, and its length 0 is not at most -1.
\<close>

theorem product_list_negative_size:
  "size' ((with_defaults no_parameters)\<lparr>size' := -1\<rparr>) = -1
   \<and> product_list sample_db ((with_defaults no_parameters)\<lparr>size' := -1\<rparr>) =
       Reply 200 (Obj [(''total'', Num 1), (''products'', Arr [])])
   \<and> \<not> int (length ([] :: jsval list)) \<le> -1"
  by (simp add: product_list_def count_docs_def run_query_def find_docs_def skip_limit_def sort_docs_def
      matches_list_filters with_defaults_def no_parameters_def sample_db_def Let_def)

section \<open>Filtering of the product list\<close>

text \<open>
  C4 (amended). For every product-list request the filter is conjunctive: when a
  non-empty category is given, every returned product has that category; a given
  minPrice and a given maxPrice each bound the price of every returned product; when
  both are given the filter holds both bounds on the price field and every returned
  product's price lies within [minPrice, maxPrice].
\<close>

theorem product_list_filtered:
  "\<exists>found.
      product_list d q =
        Reply 200 (Obj [(''total'', Num (of_nat (count_docs (products d) (list_filters q)))),
                        (''products'', Arr (map Obj found))])
    \<and> (\<forall>c. category q = Some c \<and> c \<noteq> [] \<longrightarrow>
          list_all (\<lambda>p. get_prop p ''category'' = Str c) found)
    \<and> (\<forall>a. minPrice q = Some a \<longrightarrow>
          list_all (\<lambda>p. \<exists>x. get_prop p ''price'' = Num x \<and> a \<le> x) found)
    \<and> (\<forall>b. maxPrice q = Some b \<longrightarrow>
          list_all (\<lambda>p. \<exists>x. get_prop p ''price'' = Num x \<and> x \<le> b) found)
    \<and> (\<forall>a b. minPrice q = Some a \<and> maxPrice q = Some b \<longrightarrow>
          f_price (list_filters q) = Some \<lparr>gte = Some a, lte = Some b\<rparr>
          \<and> list_all (\<lambda>p. \<exists>x. get_prop p ''price'' = Num x \<and> a \<le> x \<and> x \<le> b) found)"
proof -
  let ?found = "run_query (products d) (list_filters q) (sortBy q) (direction_of (order q))
                    (page q) (size' q)"
  have m: "\<And>p. p \<in> set ?found \<Longrightarrow> matches (list_filters q) p"
    using set_run_query by blast
  have 1: "product_list d q =
        Reply 200 (Obj [(''total'', Num (of_nat (count_docs (products d) (list_filters q)))),
                        (''products'', Arr (map Obj ?found))])"
    by (simp add: product_list_def Let_def)
  have 2: "\<forall>c. category q = Some c \<and> c \<noteq> [] \<longrightarrow>
          list_all (\<lambda>p. get_prop p ''category'' = Str c) ?found"
    using m by (auto simp: list_all_iff matches_list_filters)
  have 3: "\<forall>a. minPrice q = Some a \<longrightarrow>
          list_all (\<lambda>p. \<exists>x. get_prop p ''price'' = Num x \<and> a \<le> x) ?found"
    using m by (fastforce simp: list_all_iff matches_list_filters)
  have 4: "\<forall>b. maxPrice q = Some b \<longrightarrow>
          list_all (\<lambda>p. \<exists>x. get_prop p ''price'' = Num x \<and> x \<le> b) ?found"
    using m by (fastforce simp: list_all_iff matches_list_filters)
  have 5: "\<forall>a b. minPrice q = Some a \<and> maxPrice q = Some b \<longrightarrow>
          f_price (list_filters q) = Some \<lparr>gte = Some a, lte = Some b\<rparr>
          \<and> list_all (\<lambda>p. \<exists>x. get_prop p ''price'' = Num x \<and> a \<le> x \<and> x \<le> b) ?found"
    using m by (fastforce simp: list_all_iff matches_list_filters f_price_list_filters)
  show ?thesis
    using 1 2 3 4 5 by blast
qed

text \<open>
  The products of the shop in category "home" priced between 5 and 10: the lamp.
\<close>

theorem product_list_filtered_witness:
  "category home_query = Some ''home'' \<and> ''home'' \<noteq> []
   \<and> minPrice home_query = Some 5 \<and> maxPrice home_query = Some 10
   \<and> (\<exists>found.
        product_list shop home_query =
          Reply 200 (Obj [(''total'', Num 1), (''products'', Arr (map Obj found))])
      \<and> list_all (\<lambda>p. get_prop p ''category'' = Str ''home'') found
      \<and> list_all (\<lambda>p. \<exists>x. get_prop p ''price'' = Num x \<and> 5 \<le> x \<and> x \<le> 10) found)
   \<and> product_list shop home_query =
       Reply 200 (Obj [(''total'', Num 1), (''products'', Arr [Obj lamp])])"
proof -
  have c: "category home_query = Some ''home'' \<and> ''home'' \<noteq> []"
    and mn: "minPrice home_query = Some 5" and mx: "maxPrice home_query = Some 10"
    by (simp_all add: home_query_def)
  have cnt: "count_docs (products shop) (list_filters home_query) = 1"
    by (simp add: count_docs_def matches_list_filters home_query_def shop_def sample_product_def
        book_def lamp_def get_prop_def)
  from product_list_filtered[of shop home_query] obtain found where
    h: "product_list shop home_query =
        Reply 200 (Obj [(''total'', Num (of_nat (count_docs (products shop) (list_filters home_query)))),
                        (''products'', Arr (map Obj found))])"
       "\<forall>c. category home_query = Some c \<and> c \<noteq> [] \<longrightarrow>
          list_all (\<lambda>p. get_prop p ''category'' = Str c) found"
       "\<forall>a b. minPrice home_query = Some a \<and> maxPrice home_query = Some b \<longrightarrow>
          f_price (list_filters home_query) = Some \<lparr>gte = Some a, lte = Some b\<rparr>
          \<and> list_all (\<lambda>p. \<exists>x. get_prop p ''price'' = Num x \<and> a \<le> x \<and> x \<le> b) found"
    by blast
  have 1: "list_all (\<lambda>p. get_prop p ''category'' = Str ''home'') found"
    using h(2) c by blast
  have 2: "list_all (\<lambda>p. \<exists>x. get_prop p ''price'' = Num x \<and> 5 \<le> x \<and> x \<le> 10) found"
    using h(3) mn mx by blast
  have ev: "product_list shop home_query =
       Reply 200 (Obj [(''total'', Num 1), (''products'', Arr [Obj lamp])])"
    by (simp add: product_list_def count_docs_def run_query_def find_docs_def skip_limit_def sort_docs_def
        matches_list_filters home_query_def shop_def sample_product_def book_def lamp_def
        get_prop_def direction_of_def Let_def)
  show ?thesis using c mn mx h(1) cnt 1 2 ev by auto
qed

text \<open>
  A category given as the empty string adds no clause: the pen, of category "office",
  is returned to a request for the category "".
\<close>

theorem product_list_empty_category:
  "category ((with_defaults no_parameters)\<lparr>category := Some []\<rparr>) = Some []
   \<and> product_list sample_db ((with_defaults no_parameters)\<lparr>category := Some []\<rparr>) =
       Reply 200 (Obj [(''total'', Num 1), (''products'', Arr [Obj sample_product])])
   \<and> get_prop sample_product ''category'' = Str ''office''
   \<and> Str ''office'' \<noteq> Str []"
  by (simp add: product_list_def count_docs_def run_query_def find_docs_def skip_limit_def sort_docs_def
      matches_list_filters with_defaults_def no_parameters_def sample_db_def Let_def
      sample_product_def get_prop_def)

section \<open>Creating an order\<close>

text \<open>
  C5 (amended). For every order-creation request with a customer and items (a body that
  satisfies the schema of the route, as the handler receives it) whose quantities are
  whole numbers with the sum of their magnitudes times 10 at most \<open>2^53\<close>, the created
  order has totalAmount equal to the sum over the items of quantity x 10, status
  "Pending" and createdAt set to the time of creation; the reply is the same whatever
  the collections hold, so no product lookup influences the total. For every such
  request whose total does not overflow, whatever its quantities, the created order has
  status "Pending", createdAt set to the time of creation, and as totalAmount the value
  the reduction computes in double precision.
\<close>

theorem orders_post_total:
  assumes "valid orders_post_body body"
  shows "orders_post d new_id now body = orders_post_handler d new_id now body
    \<and> (safe_quantities (items_of body) \<longrightarrow>
         (\<exists>stored sent.
             orders_post_handler d new_id now body =
               (d\<lparr>orders := orders d @ [stored]\<rparr>, Reply 201 (Obj sent))
           \<and> sent = set_prop stored ''id'' (Str new_id)
           \<and> get_prop sent ''totalAmount'' =
               Num (sum_list (map (\<lambda>it. quantity it * 10) (items_of body)))
           \<and> get_prop sent ''status'' = Str ''Pending''
           \<and> get_prop sent ''createdAt'' = Str now
           \<and> get_prop sent ''items'' = Arr (items_of body)
           \<and> snd (orders_post_handler d' new_id now body) = Reply 201 (Obj sent)))
    \<and> (reduce_total 0 (items_of body) \<noteq> None \<longrightarrow>
         (\<exists>stored sent t.
             orders_post_handler d new_id now body =
               (d\<lparr>orders := orders d @ [stored]\<rparr>, Reply 201 (Obj sent))
           \<and> reduce_total 0 (items_of body) = Some t
           \<and> get_prop sent ''totalAmount'' = Num t
           \<and> get_prop sent ''status'' = Str ''Pending''
           \<and> get_prop sent ''createdAt'' = Str now
           \<and> snd (orders_post_handler d' new_id now body) = Reply 201 (Obj sent)))"
proof (intro conjI impI)
  show "orders_post d new_id now body = orders_post_handler d new_id now body"
    by (rule orders_post_accepted[OF assms])
next
  assume s: "safe_quantities (items_of body)"
  let ?t = "sum_list (map (\<lambda>it. quantity it * 10) (items_of body))"
  have r: "reduce_total 0 (items_of body) = Some ?t"
    by (rule safe_quantities_total[OF valid_items_of[OF assms] s])
  let ?stored = "[(''customer'', customer_of body), (''items'', Arr (items_of body)),
            (''totalAmount'', Num ?t),
            (''status'', Str ''Pending''), (''createdAt'', Str now), (''_id'', Str new_id)]"
  show "\<exists>stored sent.
             orders_post_handler d new_id now body =
               (d\<lparr>orders := orders d @ [stored]\<rparr>, Reply 201 (Obj sent))
           \<and> sent = set_prop stored ''id'' (Str new_id)
           \<and> get_prop sent ''totalAmount'' =
               Num (sum_list (map (\<lambda>it. quantity it * 10) (items_of body)))
           \<and> get_prop sent ''status'' = Str ''Pending''
           \<and> get_prop sent ''createdAt'' = Str now
           \<and> get_prop sent ''items'' = Arr (items_of body)
           \<and> snd (orders_post_handler d' new_id now body) = Reply 201 (Obj sent)"
    apply (rule exI[of _ ?stored])
    apply (rule exI[of _ "?stored @ [(''id'', Str new_id)]"])
    apply (simp add: orders_post_handler_reply[OF assms r] get_prop_def set_prop_def)
    done
next
  assume "reduce_total 0 (items_of body) \<noteq> None"
  then obtain t where r: "reduce_total 0 (items_of body) = Some t" by blast
  let ?stored = "[(''customer'', customer_of body), (''items'', Arr (items_of body)),
            (''totalAmount'', Num t),
            (''status'', Str ''Pending''), (''createdAt'', Str now), (''_id'', Str new_id)]"
  show "\<exists>stored sent t.
             orders_post_handler d new_id now body =
               (d\<lparr>orders := orders d @ [stored]\<rparr>, Reply 201 (Obj sent))
           \<and> reduce_total 0 (items_of body) = Some t
           \<and> get_prop sent ''totalAmount'' = Num t
           \<and> get_prop sent ''status'' = Str ''Pending''
           \<and> get_prop sent ''createdAt'' = Str now
           \<and> snd (orders_post_handler d' new_id now body) = Reply 201 (Obj sent)"
    apply (rule exI[of _ ?stored])
    apply (rule exI[of _ "?stored @ [(''id'', Str new_id)]"])
    apply (rule exI[of _ t])
    apply (simp add: orders_post_handler_reply[OF assms r] r get_prop_def set_prop_def)
    done
qed

text \<open>
  The items \<open>[{productId: "a", quantity: 2}, {productId: "b", quantity: 3}]\<close> give the
  total 50.
\<close>

theorem orders_post_total_witness:
  "valid orders_post_body (order_body ''Ann'' [(''a'', 2), (''b'', 3)])
   \<and> safe_quantities (items_of (order_body ''Ann'' [(''a'', 2), (''b'', 3)]))
   \<and> reduce_total 0 (items_of (order_body ''Ann'' [(''a'', 2), (''b'', 3)])) \<noteq> None
   \<and> (\<exists>stored sent.
        orders_post sample_db ''o2'' ''2024-05-01T10:00:00.000Z''
            (order_body ''Ann'' [(''a'', 2), (''b'', 3)])
          = (sample_db\<lparr>orders := orders sample_db @ [stored]\<rparr>, Reply 201 (Obj sent))
      \<and> get_prop sent ''totalAmount'' = Num 50
      \<and> get_prop sent ''status'' = Str ''Pending''
      \<and> get_prop sent ''createdAt'' = Str ''2024-05-01T10:00:00.000Z'')"
proof -
  let ?b = "order_body ''Ann'' [(''a'', 2), (''b'', 3)]"
  have v: "valid orders_post_body ?b"
    by (rule valid_order_body)
  have s: "sum_list (map (\<lambda>it. quantity it * 10) (items_of ?b)) = 50"
    by (simp add: items_of_order_body quantity_order_item)
  have q: "safe_quantities (items_of ?b)"
    by (simp add: safe_quantities_def items_of_order_body quantity_order_item whole_def)
  have r: "reduce_total 0 (items_of ?b) \<noteq> None"
    using safe_quantities_total[OF valid_items_of[OF v] q] by simp
  from orders_post_total[OF v, of sample_db "''o2''" "''2024-05-01T10:00:00.000Z''" sample_db] q
  show ?thesis using v r unfolding s by auto
qed

text \<open>
  The quantity 9007199254740991 is a double and the schema accepts it. Its product with
  10, 90071992547409910, is not a double: the order is created with the total
  90071992547409904, the nearest one.
\<close>

theorem orders_post_total_rounds:
  "valid orders_post_body (order_body ''Ann'' [(''a'', 9007199254740991)])
   \<and> snd (orders_post_handler sample_db ''o2'' ''2024-05-01T10:00:00.000Z''
            (order_body ''Ann'' [(''a'', 9007199254740991)])) =
       Reply 201 (Obj
         [(''customer'', Str ''Ann''),
          (''items'', Arr [Obj [(''productId'', Str ''a''), (''quantity'', Num 9007199254740991)]]),
          (''totalAmount'', Num 90071992547409904), (''status'', Str ''Pending''),
          (''createdAt'', Str ''2024-05-01T10:00:00.000Z''), (''_id'', Str ''o2''),
          (''id'', Str ''o2'')])
   \<and> sum_list (map (\<lambda>it. quantity it * 10)
         (items_of (order_body ''Ann'' [(''a'', 9007199254740991)]))) = 90071992547409910
   \<and> Num 90071992547409904 \<noteq> Num 90071992547409910"
proof -
  let ?b = "order_body ''Ann'' [(''a'', 9007199254740991)]"
  have v: "valid orders_post_body ?b" by (rule valid_order_body)
  have m: "js_mul 9007199254740991 10 = Some 90071992547409904" by code_simp
  have a: "js_add 0 90071992547409904 = Some 90071992547409904" by code_simp
  have r: "reduce_total 0 (items_of ?b) = Some 90071992547409904"
    by (simp add: items_of_order_body order_item_def item_quantity_def get_prop_def m a)
  have s: "sum_list (map (\<lambda>it. quantity it * 10) (items_of ?b)) = 90071992547409910"
    by (simp add: items_of_order_body quantity_order_item)
  have c: "customer_of ?b = Str ''Ann''"
    by (simp add: customer_of_def order_body_def get_prop_def)
  have i: "items_of ?b = [Obj [(''productId'', Str ''a''), (''quantity'', Num 9007199254740991)]]"
    by (simp add: items_of_order_body order_item_def)
  show ?thesis
    using v s by (simp add: orders_post_handler_reply[OF v r] c i)
qed

text \<open>
  A quantity need not be whole. The double nearest to 0.1 is
  \<open>3602879701896397 / 2^55\<close>; its product with 10 is above 1 by \<open>2^-54\<close> and rounds to 1.
\<close>

lemma orders_post_total_fraction:
  "reduce_total 0 [order_item (''a'', 3602879701896397 / 36028797018963968)] = Some 1
   \<and> quantity (order_item (''a'', 3602879701896397 / 36028797018963968)) * 10
       = 18014398509481985 / 18014398509481984"
proof -
  have m: "js_mul (3602879701896397 / 36028797018963968) 10 = Some 1" by code_simp
  have a: "js_add 0 1 = Some 1" by code_simp
  show ?thesis
    by (simp add: order_item_def item_quantity_def quantity_def get_prop_def m a)
qed

section \<open>Updating a product\<close>

text \<open>
  C6. For every product-update request, only the provided fields are merged into the
  existing document: a field the body does not name keeps its value, a field it names
  takes the body's value; when the identifier names no document the reply is 404 with
  the message "Product not found" and the collection is unchanged, otherwise the reply
  is 200 with the updated document (and its "id").
\<close>

theorem product_put_merges:
  "(\<not> list_ex (has_id i) (products d) \<longrightarrow>
      product_put d i upd = (d, Reply 404 (Obj [(''message'', Str ''Product not found'')])))
   \<and> (list_ex (has_id i) (products d) \<longrightarrow>
        (\<exists>pre old post new.
            products d = pre @ old # post \<and> \<not> list_ex (has_id i) pre \<and> has_id i old
          \<and> product_put d i upd =
              (d\<lparr>products := pre @ new # post\<rparr>,
               Reply 200 (Obj (set_prop new ''id'' (get_prop new ''_id''))))
          \<and> (\<forall>k. k \<notin> fst ` set upd \<longrightarrow> get_prop new k = get_prop old k)
          \<and> (\<forall>k. get_prop new k =
                 (case map_of (rev upd) k of None \<Rightarrow> get_prop old k | Some v \<Rightarrow> v))))"
proof (intro conjI impI)
  assume "\<not> list_ex (has_id i) (products d)"
  then show "product_put d i upd = (d, Reply 404 (Obj [(''message'', Str ''Product not found'')]))"
    by (simp add: product_put_def update_absent)
next
  assume "list_ex (has_id i) (products d)"
  from update_present[OF this, of "SetFields upd"] obtain pre old post where
    h: "products d = pre @ old # post" "\<not> list_ex (has_id i) pre" "has_id i old"
       "update_by_id i (SetFields upd) (products d) =
          (pre @ apply_set upd old # post, Some (apply_set upd old))"
    by auto
  have frame: "\<forall>k. k \<notin> fst ` set upd \<longrightarrow> get_prop (apply_set upd old) k = get_prop old k"
  proof (intro allI impI)
    fix k assume "k \<notin> fst ` set upd"
    then have "map_of (rev upd) k = None" by (simp add: map_of_eq_None_iff)
    then show "get_prop (apply_set upd old) k = get_prop old k"
      by (simp add: get_prop_apply_set)
  qed
  have "products d = pre @ old # post \<and> \<not> list_ex (has_id i) pre \<and> has_id i old
          \<and> product_put d i upd =
              (d\<lparr>products := pre @ apply_set upd old # post\<rparr>,
               Reply 200 (Obj (set_prop (apply_set upd old) ''id''
                                 (get_prop (apply_set upd old) ''_id''))))
          \<and> (\<forall>k. k \<notin> fst ` set upd \<longrightarrow> get_prop (apply_set upd old) k = get_prop old k)
          \<and> (\<forall>k. get_prop (apply_set upd old) k =
                 (case map_of (rev upd) k of None \<Rightarrow> get_prop old k | Some v \<Rightarrow> v))"
    using h frame by (simp add: product_put_def get_prop_apply_set)
  then show "\<exists>pre old post new.
            products d = pre @ old # post \<and> \<not> list_ex (has_id i) pre \<and> has_id i old
          \<and> product_put d i upd =
              (d\<lparr>products := pre @ new # post\<rparr>,
               Reply 200 (Obj (set_prop new ''id'' (get_prop new ''_id''))))
          \<and> (\<forall>k. k \<notin> fst ` set upd \<longrightarrow> get_prop new k = get_prop old k)
          \<and> (\<forall>k. get_prop new k =
                 (case map_of (rev upd) k of None \<Rightarrow> get_prop old k | Some v \<Rightarrow> v))"
    by blast
qed

text \<open>
  The body \<open>{price: 42}\<close> changes the price of the pen and leaves its name, category and
  description; an unknown identifier is answered with 404.
\<close>

theorem product_put_merges_witness:
  "list_ex (has_id ''p1'') (products sample_db)
   \<and> \<not> list_ex (has_id ''zz'') (products sample_db)
   \<and> product_put sample_db ''zz'' [(''price'', Num 42)] =
       (sample_db, Reply 404 (Obj [(''message'', Str ''Product not found'')]))
   \<and> (\<exists>new. product_put sample_db ''p1'' [(''price'', Num 42)] =
               (sample_db\<lparr>products := [new]\<rparr>,
                Reply 200 (Obj (set_prop new ''id'' (get_prop new ''_id''))))
            \<and> get_prop new ''price'' = Num 42
            \<and> get_prop new ''name'' = Str ''Pen''
            \<and> get_prop new ''category'' = Str ''office''
            \<and> get_prop new ''description'' = Str ''Blue pen'')
   \<and> product_put sample_db ''p1'' [(''price'', Num 42)] =
       (\<lparr>products = [[(''name'', Str ''Pen''), (''price'', Num 42), (''category'', Str ''office''),
                       (''description'', Str ''Blue pen''), (''_id'', Str ''p1'')]],
         orders = [sample_order]\<rparr>,
        Reply 200 (Obj [(''name'', Str ''Pen''), (''price'', Num 42), (''category'', Str ''office''),
                        (''description'', Str ''Blue pen''), (''_id'', Str ''p1''),
                        (''id'', Str ''p1'')]))"
proof -
  have p: "list_ex (has_id ''p1'') (products sample_db)"
    by (simp add: sample_db_def sample_product_def has_id_def get_prop_def)
  have z: "\<not> list_ex (has_id ''zz'') (products sample_db)"
    by (simp add: sample_db_def sample_product_def has_id_def get_prop_def)
  have nf: "product_put sample_db ''zz'' [(''price'', Num 42)] =
       (sample_db, Reply 404 (Obj [(''message'', Str ''Product not found'')]))"
    using product_put_merges[of "''zz''" sample_db "[(''price'', Num 42)]"] z by blast
  from product_put_merges[of "''p1''" sample_db "[(''price'', Num 42)]"] p
  obtain pre old post new where
    h: "products sample_db = pre @ old # post"
       "product_put sample_db ''p1'' [(''price'', Num 42)] =
          (sample_db\<lparr>products := pre @ new # post\<rparr>,
           Reply 200 (Obj (set_prop new ''id'' (get_prop new ''_id''))))"
       "\<forall>k. k \<notin> fst ` set [(''price'', Num 42)] \<longrightarrow> get_prop new k = get_prop old k"
       "\<forall>k. get_prop new k =
          (case map_of (rev [(''price'', Num 42)]) k of None \<Rightarrow> get_prop old k | Some v \<Rightarrow> v)"
    by blast
  from h(1) have e: "pre = [] \<and> old = sample_product \<and> post = []"
    by (cases pre) (simp_all add: sample_db_def)
  have "get_prop new ''price'' = Num 42" using h(4) by simp
  moreover have "get_prop new ''name'' = Str ''Pen''"
    using h(3) e by (simp add: sample_product_def get_prop_def)
  moreover have "get_prop new ''category'' = Str ''office''"
    using h(3) e by (simp add: sample_product_def get_prop_def)
  moreover have "get_prop new ''description'' = Str ''Blue pen''"
    using h(3) e by (simp add: sample_product_def get_prop_def)
  ultimately have ex: "\<exists>new. product_put sample_db ''p1'' [(''price'', Num 42)] =
               (sample_db\<lparr>products := [new]\<rparr>,
                Reply 200 (Obj (set_prop new ''id'' (get_prop new ''_id''))))
            \<and> get_prop new ''price'' = Num 42
            \<and> get_prop new ''name'' = Str ''Pen''
            \<and> get_prop new ''category'' = Str ''office''
            \<and> get_prop new ''description'' = Str ''Blue pen''"
    using h(2) e by auto
  have conc: "product_put sample_db ''p1'' [(''price'', Num 42)] =
       (\<lparr>products = [[(''name'', Str ''Pen''), (''price'', Num 42), (''category'', Str ''office''),
                       (''description'', Str ''Blue pen''), (''_id'', Str ''p1'')]],
         orders = [sample_order]\<rparr>,
        Reply 200 (Obj [(''name'', Str ''Pen''), (''price'', Num 42), (''category'', Str ''office''),
                        (''description'', Str ''Blue pen''), (''_id'', Str ''p1''),
                        (''id'', Str ''p1'')]))"
    by (simp add: product_put_def sample_db_def sample_product_def has_id_def get_prop_def
        set_prop_def apply_set_def)
  show ?thesis
    by (intro conjI) (rule p z nf ex conc)+
qed

section \<open>Deleting a document\<close>

text \<open>
  Deleting a product behaves as specified: 404 and an unchanged collection when the
  identifier is absent, otherwise one document removed and 204.
\<close>

lemma product_delete_removes:
  "(\<not> list_ex (has_id i) (products d) \<longrightarrow> product_delete d i = (d, Reply 404 (Obj [(''message'', Str ''Product not found'')])))
   \<and> (list_ex (has_id i) (products d) \<longrightarrow>
        (\<exists>pre old post.
            products d = pre @ old # post \<and> \<not> list_ex (has_id i) pre \<and> has_id i old
          \<and> product_delete d i = (d\<lparr>products := pre @ post\<rparr>, Reply 204 Undefined)))"
proof (intro conjI impI)
  assume "\<not> list_ex (has_id i) (products d)"
  then show "product_delete d i = (d, Reply 404 (Obj [(''message'', Str ''Product not found'')]))"
    by (simp add: product_delete_def remove_absent)
next
  assume "list_ex (has_id i) (products d)"
  from remove_present[OF this] obtain pre old post where
    h: "products d = pre @ old # post" "\<not> list_ex (has_id i) pre" "has_id i old"
       "remove_by_id i (products d) = (pre @ post, 1)"
    by blast
  have "products d = pre @ old # post \<and> \<not> list_ex (has_id i) pre \<and> has_id i old
          \<and> product_delete d i = (d\<lparr>products := pre @ post\<rparr>, Reply 204 Undefined)"
    using h by (simp add: product_delete_def)
  then show "\<exists>pre old post.
            products d = pre @ old # post \<and> \<not> list_ex (has_id i) pre \<and> has_id i old
          \<and> product_delete d i = (d\<lparr>products := pre @ post\<rparr>, Reply 204 Undefined)"
    by blast
qed

text \<open>
  Deleting an order answers 404 and leaves the collection unchanged when the identifier
  is absent. When it is present, the document is removed and then \<open>fixId\<close> is called
  on the number of removed documents, which throws.
\<close>

lemma orders_delete_outcomes:
  "(\<not> list_ex (has_id i) (orders d) \<longrightarrow> orders_delete d i = (d, Reply 404 (Obj [(''message'', Str ''Order not found'')])))
   \<and> (list_ex (has_id i) (orders d) \<longrightarrow>
        (\<exists>pre old post.
            orders d = pre @ old # post \<and> \<not> list_ex (has_id i) pre \<and> has_id i old
          \<and> orders_delete d i = (d\<lparr>orders := pre @ post\<rparr>, Throws TypeError)))"
proof (intro conjI impI)
  assume "\<not> list_ex (has_id i) (orders d)"
  then show "orders_delete d i = (d, Reply 404 (Obj [(''message'', Str ''Order not found'')]))"
    by (simp add: orders_delete_def remove_absent)
next
  assume "list_ex (has_id i) (orders d)"
  from remove_present[OF this] obtain pre old post where
    h: "orders d = pre @ old # post" "\<not> list_ex (has_id i) pre" "has_id i old"
       "remove_by_id i (orders d) = (pre @ post, 1)"
    by blast
  have "orders d = pre @ old # post \<and> \<not> list_ex (has_id i) pre \<and> has_id i old
          \<and> orders_delete d i = (d\<lparr>orders := pre @ post\<rparr>, Throws TypeError)"
    using h by (simp add: orders_delete_def)
  then show "\<exists>pre old post.
            orders d = pre @ old # post \<and> \<not> list_ex (has_id i) pre \<and> has_id i old
          \<and> orders_delete d i = (d\<lparr>orders := pre @ post\<rparr>, Throws TypeError)"
    by blast
qed

text \<open>
  C7. A delete request with a present identifier should remove at most one document and
  reply 204. For orders, \<^verbatim>\<open>fixId(result)\<close> is called on the number \<^verbatim>\<open>result\<close>: on the sample
  collection, deleting the order \<open>o1\<close> removes it and ends with a TypeError instead of
  the reply 204.
\<close>

theorem orders_delete_throws:
  "orders_delete sample_db ''o1'' = (\<lparr>products = [sample_product], orders = []\<rparr>, Throws TypeError)"
  by (simp add: orders_delete_def sample_db_def sample_order_def has_id_def get_prop_def)

section \<open>Searching products\<close>

text \<open>
  C8 (amended). For every search request whose search string is non-empty and holds no
  regular-expression metacharacter, the result is the List result additionally
  restricted to the products whose name or description holds the search string as a
  substring, ignoring case (each returned document with its "id").
\<close>

theorem product_search_literal:
  assumes "search q = Some s" and "s \<noteq> []" and "list_all (\<lambda>c. c \<notin> set metachars) s"
  shows "\<exists>listed selected.
      listed = filter (matches (list_filters q)) (products d)
    \<and> selected = filter (search_hit s) listed
    \<and> product_list d (list_query.truncate q) =
        Reply 200 (Obj [(''total'', Num (of_nat (length listed))),
          (''products'', Arr (map Obj
             (skip_limit ((page q - 1) * size' q) (size' q)
                (sort_docs (sortBy q) (direction_of (order q)) listed))))])
    \<and> product_search d q =
        Reply 200 (Obj [(''total'', Num (of_nat (length selected))),
          (''products'', Arr (map (\<lambda>p. Obj (set_prop p ''id'' (get_prop p ''_id'')))
             (skip_limit ((page q - 1) * size' q) (size' q)
                (sort_docs (sortBy q) (direction_of (order q)) selected))))])"
proof -
  let ?f = "(list_filters q)\<lparr>f_or := Some [(''name'', map Lit s), (''description'', map Lit s)]\<rparr>"
  have sf: "search_filters q = Inr ?f"
    using assms by (simp add: search_filters_def add_search_def truthy_def new_RegExp_literal)
  have m: "matches ?f = (\<lambda>p. matches (list_filters q) p \<and> search_hit s p)"
    by (rule ext) (simp add: matches_def match_or_literal f_or_list_filters)
  have sel: "filter (matches ?f) (products d)
             = filter (search_hit s) (filter (matches (list_filters q)) (products d))"
    unfolding m by (simp add: conj_commute)
  have 1: "product_list d (list_query.truncate q) =
        Reply 200 (Obj [(''total'', Num (of_nat (length (filter (matches (list_filters q)) (products d))))),
          (''products'', Arr (map Obj
             (skip_limit ((page q - 1) * size' q) (size' q)
                (sort_docs (sortBy q) (direction_of (order q))
                   (filter (matches (list_filters q)) (products d))))))])"
    by (simp add: product_list_def Let_def count_docs_def run_query_def find_docs_def list_filters_truncate)
       (simp add: list_query.truncate_def)
  have 2: "product_search d q =
        Reply 200 (Obj [(''total'', Num (of_nat (length (filter (search_hit s) (filter (matches (list_filters q)) (products d)))))),
          (''products'', Arr (map (\<lambda>p. Obj (set_prop p ''id'' (get_prop p ''_id'')))
             (skip_limit ((page q - 1) * size' q) (size' q)
                (sort_docs (sortBy q) (direction_of (order q))
                  (filter (search_hit s) (filter (matches (list_filters q)) (products d)))))))])"
    by (simp add: product_search_def sf Let_def count_docs_def run_query_def find_docs_def forEach_fixId sel)
  show ?thesis using 1 2 by blast
qed

text \<open>
  Searching "pen" finds the product named "Pen".
\<close>

theorem product_search_literal_witness:
  "search (find_query ''pen'') = Some ''pen'' \<and> ''pen'' \<noteq> []
   \<and> list_all (\<lambda>c. c \<notin> set metachars) ''pen''
   \<and> search_hit ''pen'' sample_product
   \<and> product_search sample_db (find_query ''pen'') =
       Reply 200 (Obj [(''total'', Num 1),
                       (''products'', Arr [Obj (sample_product @ [(''id'', Str ''p1'')])])])"
proof -
  have a: "search (find_query ''pen'') = Some ''pen''" by (simp add: find_query_def)
  have b: "''pen'' \<noteq> []" by simp
  have c: "list_all (\<lambda>c. c \<notin> set metachars) ''pen''" by (simp add: metachars_def)
  have hit: "search_hit ''pen'' sample_product" by code_simp
  have l: "filter (matches (list_filters (find_query ''pen''))) (products sample_db) = [sample_product]"
    by (simp add: matches_list_filters find_query_def sample_db_def)
  from product_search_literal[OF a b c, of sample_db] obtain listed selected where
    h: "listed = filter (matches (list_filters (find_query ''pen''))) (products sample_db)"
       "selected = filter (search_hit ''pen'') listed"
       "product_search sample_db (find_query ''pen'') =
        Reply 200 (Obj [(''total'', Num (of_nat (length selected))),
          (''products'', Arr (map (\<lambda>p. Obj (set_prop p ''id'' (get_prop p ''_id'')))
             (skip_limit ((page (find_query ''pen'') - 1) * size' (find_query ''pen''))
                (size' (find_query ''pen''))
                (sort_docs (sortBy (find_query ''pen'')) (direction_of (order (find_query ''pen'')))
                   selected))))])"
    by blast
  have sel: "selected = [sample_product]" using h(1,2) l hit by simp
  have fx: "set_prop sample_product ''id'' (get_prop sample_product ''_id'')
            = sample_product @ [(''id'', Str ''p1'')]"
    by (simp add: sample_product_def set_prop_def get_prop_def)
  show ?thesis
    using a b c hit h(3) fx unfolding sel
    by (simp add: find_query_def skip_limit_def sort_docs_def)
qed

text \<open>
  The search string "." occurs neither in "Pen" nor in "Blue pen", yet the search
  returns the pen: the string is read as a pattern, in which \<^verbatim>\<open>.\<close> matches any character.
  The search string "*" is no pattern at all and the request ends with a SyntaxError.
\<close>

theorem product_search_dot:
  "\<not> occurs_ignoring_case ''.'' ''Pen'' \<and> \<not> occurs_ignoring_case ''.'' ''Blue pen''
   \<and> get_prop sample_product ''name'' = Str ''Pen''
   \<and> get_prop sample_product ''description'' = Str ''Blue pen''
   \<and> product_search sample_db (find_query ''.'') =
       Reply 200 (Obj [(''total'', Num 1),
                       (''products'', Arr [Obj (sample_product @ [(''id'', Str ''p1'')])])])
   \<and> product_search sample_db (find_query ''*'') = Throws SyntaxError"
proof -
  have 1: "\<not> occurs_ignoring_case ''.'' ''Pen''" by code_simp
  have 2: "\<not> occurs_ignoring_case ''.'' ''Blue pen''" by code_simp
  have 3: "get_prop sample_product ''name'' = Str ''Pen''"
          "get_prop sample_product ''description'' = Str ''Blue pen''"
    by (simp_all add: sample_product_def get_prop_def)
  have 4: "product_search sample_db (find_query ''.'') =
       Reply 200 (Obj [(''total'', Num 1),
                       (''products'', Arr [Obj (sample_product @ [(''id'', Str ''p1'')])])])"
    by (simp add: product_search_def search_filters_def add_search_def new_RegExp_def metachars_def
      find_query_def sample_db_def sample_product_def 
      list_filters_def add_category_def add_minPrice_def add_maxPrice_def spread_def
      truthy_def no_filter_def count_docs_def find_docs_def run_query_def skip_limit_def sort_docs_def
      match_or_def match_regex_def set_prop_def
      matches_def direction_of_def get_prop_def Let_def)
  have 5: "product_search sample_db (find_query ''*'') = Throws SyntaxError"
    by (simp add: product_search_def search_filters_def add_search_def new_RegExp_def 
      find_query_def truthy_def)
  show ?thesis using 1 2 3 4 5 by simp
qed

section \<open>Validation of the order body\<close>

text \<open>
  C9 (amended). Order creation requires each item to carry a productId and a quantity,
  a number of any sign: every request whose items each carry a string productId and a
  numeric quantity, zero and negative quantities included, is accepted by validation
  and handed to the handler; when the quantities are whole numbers with the sum of
  their magnitudes times 10 at most \<open>2^53\<close>, it produces an order whose totalAmount is
  the sum of quantity x 10, which can be zero or negative. A request with an item, at
  any position, that lacks the quantity or the productId is rejected by validation.
\<close>

theorem orders_post_accepts_any_quantity:
  "check orders_post_body (order_body c its) = Accepted
   \<and> orders_post d new_id now (order_body c its) =
       orders_post_handler d new_id now (order_body c its)
   \<and> snd (orders_post d new_id now (order_body c its)) \<noteq> Rejected
   \<and> (10 * sum_list (map (\<lambda>it. \<bar>snd it\<bar>) ns) \<le> 2 ^ 53 \<longrightarrow>
        (\<exists>stored sent.
            orders_post d new_id now (order_body c (map (\<lambda>it. (fst it, of_int (snd it))) ns)) =
              (d\<lparr>orders := orders d @ [stored]\<rparr>, Reply 201 (Obj sent))
          \<and> get_prop sent ''totalAmount'' = Num (of_int (sum_list (map (\<lambda>it. snd it * 10) ns)))))
   \<and> (map_of ord ''items'' = Some (Arr items) \<and> Obj it \<in> set items
        \<and> (map_of it ''quantity'' = None \<or> map_of it ''productId'' = None) \<longrightarrow>
        orders_post d new_id now (Obj ord) = (d, Rejected))"
proof (intro conjI impI)
  have v: "valid orders_post_body (order_body c its)" by (rule valid_order_body)
  show "check orders_post_body (order_body c its) = Accepted"
    using v by (simp add: valid_def)
  show e: "orders_post d new_id now (order_body c its) =
       orders_post_handler d new_id now (order_body c its)"
    by (rule orders_post_accepted[OF v])
  show "snd (orders_post d new_id now (order_body c its)) \<noteq> Rejected"
    unfolding e by (rule orders_post_handler_not_Rejected)
next
  assume b: "10 * sum_list (map (\<lambda>it. \<bar>snd it\<bar>) ns) \<le> 2 ^ 53"
  let ?its = "map (\<lambda>it. (fst it, of_int (snd it))) ns"
  let ?b = "order_body c ?its"
  have v: "valid orders_post_body ?b" by (rule valid_order_body)
  have l: "list_all2 (\<lambda>it n. item_quantity it = Some (of_int n)) (items_of ?b) (map snd ns)"
    by (simp add: items_of_order_body list_all2_map1 list_all2_map2 order_item_def
        item_quantity_def get_prop_def list_all2_same)
  have "\<bar>0::int\<bar> + 10 * sum_list (map abs (map snd ns)) \<le> 2 ^ 53"
    using b by (simp add: comp_def)
  from reduce_total_whole[OF l this]
  have r: "reduce_total 0 (items_of ?b) = Some (of_int (10 * sum_list (map snd ns)))"
    by simp
  have s: "10 * sum_list (map snd ns) = sum_list (map (\<lambda>it. snd it * 10) ns)"
    by (induction ns) (simp_all add: algebra_simps)
  show "\<exists>stored sent.
            orders_post d new_id now ?b =
              (d\<lparr>orders := orders d @ [stored]\<rparr>, Reply 201 (Obj sent))
          \<and> get_prop sent ''totalAmount'' = Num (of_int (sum_list (map (\<lambda>it. snd it * 10) ns)))"
    unfolding orders_post_accepted[OF v] orders_post_handler_reply[OF v r] s
    by (intro exI conjI, rule refl) (simp add: get_prop_def)
next
  assume "map_of ord ''items'' = Some (Arr items) \<and> Obj it \<in> set items
        \<and> (map_of it ''quantity'' = None \<or> map_of it ''productId'' = None)"
  then show "orders_post d new_id now (Obj ord) = (d, Rejected)"
    using orders_post_refused by blast
qed

text \<open>
  The quantities -1 and 0 give an order with the total -10; a request whose second of
  three items has no quantity is rejected.
\<close>

theorem orders_post_accepts_any_quantity_witness:
  "10 * sum_list (map (\<lambda>it. \<bar>snd it\<bar>) [(''a'', -1 :: int), (''b'', 0)]) \<le> 2 ^ 53
   \<and> (\<exists>stored sent.
        orders_post sample_db ''o2'' ''2024-05-01T10:00:00.000Z''
            (order_body ''Bob'' [(''a'', -1), (''b'', 0)]) =
          (sample_db\<lparr>orders := orders sample_db @ [stored]\<rparr>, Reply 201 (Obj sent))
      \<and> get_prop sent ''totalAmount'' = Num (- 10))
   \<and> map_of [(''customer'', Str ''Bob''),
              (''items'', Arr [order_item (''a'', 1), Obj [(''productId'', Str ''b'')],
                               order_item (''c'', 2)])] ''items''
       = Some (Arr [order_item (''a'', 1), Obj [(''productId'', Str ''b'')], order_item (''c'', 2)])
   \<and> Obj [(''productId'', Str ''b'')]
        \<in> set [order_item (''a'', 1), Obj [(''productId'', Str ''b'')], order_item (''c'', 2)]
   \<and> map_of [(''productId'', Str ''b'')] ''quantity'' = None
   \<and> orders_post sample_db ''o2'' ''2024-05-01T10:00:00.000Z''
        (Obj [(''customer'', Str ''Bob''),
              (''items'', Arr [order_item (''a'', 1), Obj [(''productId'', Str ''b'')],
                               order_item (''c'', 2)])]) = (sample_db, Rejected)"
proof -
  let ?ns = "[(''a'', -1 :: int), (''b'', 0)]"
  let ?items = "[order_item (''a'', 1), Obj [(''productId'', Str ''b'')], order_item (''c'', 2)]"
  let ?ord = "[(''customer'', Str ''Bob''), (''items'', Arr ?items)]"
  let ?it = "[(''productId'', Str ''b'')]"
  note t = orders_post_accepts_any_quantity[of "''Bob''" "[]" sample_db "''o2''"
      "''2024-05-01T10:00:00.000Z''" ?ns ?ord ?items ?it]
  have b: "10 * sum_list (map (\<lambda>it. \<bar>snd it\<bar>) ?ns) \<le> 2 ^ 53" by simp
  have m: "map_of ?ord ''items'' = Some (Arr ?items)" by simp
  have i: "Obj ?it \<in> set ?items" by simp
  have k: "map_of ?it ''quantity'' = None" by simp
  have 1: "\<exists>stored sent.
        orders_post sample_db ''o2'' ''2024-05-01T10:00:00.000Z''
            (order_body ''Bob'' [(''a'', -1), (''b'', 0)]) =
          (sample_db\<lparr>orders := orders sample_db @ [stored]\<rparr>, Reply 201 (Obj sent))
      \<and> get_prop sent ''totalAmount'' = Num (- 10)"
    using t b by simp
  have 2: "orders_post sample_db ''o2'' ''2024-05-01T10:00:00.000Z'' (Obj ?ord) = (sample_db, Rejected)"
    using t m i k by blast
  show ?thesis using b 1 m i k 2 by blast
qed

text \<open>
  A request with the quantities 0 and -3 is accepted; the order created has the total
  -30.
\<close>

theorem orders_post_nonpositive_quantity:
  "orders_post sample_db ''o2'' ''2024-05-01T10:00:00.000Z'' (order_body ''Bob'' [(''a'', 0), (''b'', -3)])
   = (\<lparr>products = [sample_product],
       orders = [sample_order,
         [(''customer'', Str ''Bob''),
          (''items'', Arr [Obj [(''productId'', Str ''a''), (''quantity'', Num 0)],
                           Obj [(''productId'', Str ''b''), (''quantity'', Num (-3))]]),
          (''totalAmount'', Num (-30)), (''status'', Str ''Pending''),
          (''createdAt'', Str ''2024-05-01T10:00:00.000Z''), (''_id'', Str ''o2'')]]\<rparr>,
      Reply 201 (Obj
         [(''customer'', Str ''Bob''),
          (''items'', Arr [Obj [(''productId'', Str ''a''), (''quantity'', Num 0)],
                           Obj [(''productId'', Str ''b''), (''quantity'', Num (-3))]]),
          (''totalAmount'', Num (-30)), (''status'', Str ''Pending''),
          (''createdAt'', Str ''2024-05-01T10:00:00.000Z''), (''_id'', Str ''o2''),
          (''id'', Str ''o2'')]))"
proof -
  let ?b = "order_body ''Bob'' [(''a'', 0), (''b'', -3)]"
  have v: "valid orders_post_body ?b" by (rule valid_order_body)
  have m1: "js_mul 0 10 = Some 0" by code_simp
  have a1: "js_add 0 0 = Some 0" by code_simp
  have m2: "js_mul (- 3) 10 = Some (- 30)" by code_simp
  have a2: "js_add 0 (- 30) = Some (- 30)" by code_simp
  have r: "reduce_total 0 (items_of ?b) = Some (- 30)"
    by (simp add: items_of_order_body order_item_def item_quantity_def get_prop_def m1 a1 m2 a2)
  have c: "customer_of ?b = Str ''Bob''"
    by (simp add: customer_of_def order_body_def get_prop_def)
  have i: "items_of ?b = [Obj [(''productId'', Str ''a''), (''quantity'', Num 0)],
                           Obj [(''productId'', Str ''b''), (''quantity'', Num (-3))]]"
    by (simp add: items_of_order_body order_item_def)
  show ?thesis
    by (simp add: orders_post_accepted[OF v] orders_post_handler_reply[OF v r] c i sample_db_def)
qed

text \<open>
  A quantity sent as the string "2" is a case for the validator's conversion, which is
  outside the model: the route is not said to reject it.
\<close>

lemma orders_post_coercible:
  "check orders_post_body
     (Obj [(''customer'', Str c),
           (''items'', Arr [Obj [(''productId'', Str p), (''quantity'', Str ''2'')]])]) = Coercion
   \<and> orders_post d new_id now
     (Obj [(''customer'', Str c),
           (''items'', Arr [Obj [(''productId'', Str p), (''quantity'', Str ''2'')]])])
     = (d, NotModelled)"
  by (simp add: orders_post_def orders_post_body_def orders_post_item_def worst_def)

section \<open>Presence checks of the filter parameters\<close>

text \<open>
  C10. The presence checks of the product list and search are asymmetric. A category
  equal to the empty string is treated as absent: no category clause is added, and both
  routes answer as without the parameter. A search equal to the empty string is treated
  as absent by the search route. But \<open>minPrice = 0\<close> and \<open>maxPrice = 0\<close> are applied as
  price bounds: the price clause holds the bound 0, and a document matches only when
  its price is a number on the right side of 0.
\<close>

theorem presence_checks_asymmetric:
  "\<not> truthy (Some []) \<and> \<not> truthy None \<and> truthy (Some (c # cs))
   \<and> list_filters (q\<lparr>category := Some []\<rparr>) = list_filters (q\<lparr>category := None\<rparr>)
   \<and> f_category (list_filters (q\<lparr>category := Some []\<rparr>)) = None
   \<and> product_list d (lq\<lparr>category := Some []\<rparr>) = product_list d (lq\<lparr>category := None\<rparr>)
   \<and> product_search d (sq\<lparr>category := Some []\<rparr>) = product_search d (sq\<lparr>category := None\<rparr>)
   \<and> search_filters (sq\<lparr>search := Some []\<rparr>) = search_filters (sq\<lparr>search := None\<rparr>)
   \<and> search_filters (sq\<lparr>search := None\<rparr>) = Inr (list_filters sq)
   \<and> product_search d (sq\<lparr>search := Some []\<rparr>) = product_search d (sq\<lparr>search := None\<rparr>)
   \<and> f_price (list_filters (q\<lparr>minPrice := Some 0\<rparr>)) = Some \<lparr>gte = Some 0, lte = maxPrice q\<rparr>
   \<and> f_price (list_filters (q\<lparr>maxPrice := Some 0\<rparr>)) = Some \<lparr>gte = minPrice q, lte = Some 0\<rparr>
   \<and> f_price (list_filters (q\<lparr>minPrice := None, maxPrice := None\<rparr>)) = None
   \<and> matches (list_filters (q\<lparr>minPrice := Some 0, maxPrice := None\<rparr>)) p =
       (matches (list_filters (q\<lparr>minPrice := None, maxPrice := None\<rparr>)) p
        \<and> (\<exists>x. get_prop p ''price'' = Num x \<and> 0 \<le> x))
   \<and> matches (list_filters (q\<lparr>minPrice := None, maxPrice := Some 0\<rparr>)) p =
       (matches (list_filters (q\<lparr>minPrice := None, maxPrice := None\<rparr>)) p
        \<and> (\<exists>x. get_prop p ''price'' = Num x \<and> x \<le> 0))"
proof -
  have a: "\<And>q :: 'b list_query_scheme. list_filters (q\<lparr>category := Some []\<rparr>) = list_filters (q\<lparr>category := None\<rparr>)"
    by (simp add: list_filters_def add_category_def truthy_def)
  have b: "search_filters (sq\<lparr>search := Some []\<rparr>) = search_filters (sq\<lparr>search := None\<rparr>)"
       "search_filters (sq\<lparr>search := None\<rparr>) = Inr (list_filters sq)"
    by (simp_all add: search_filters_def add_search_def truthy_def list_filters_def)
  have c: "product_list d (lq\<lparr>category := Some []\<rparr>) = product_list d (lq\<lparr>category := None\<rparr>)"
    by (simp add: product_list_def a)
  have sfc: "search_filters (sq\<lparr>category := Some []\<rparr>) = search_filters (sq\<lparr>category := None\<rparr>)"
    by (simp add: search_filters_def a)
  have e: "product_search d (sq\<lparr>category := Some []\<rparr>) = product_search d (sq\<lparr>category := None\<rparr>)"
    by (simp add: product_search_def sfc Let_def split: sum.splits)
  have f: "product_search d (sq\<lparr>search := Some []\<rparr>) = product_search d (sq\<lparr>search := None\<rparr>)"
    by (simp add: product_search_def b Let_def split: sum.splits)
  show ?thesis
    using a[of q] b c e f
    by (auto simp: matches_list_filters f_category_list_filters f_price_list_filters truthy_def
        split: option.splits)
qed

end
